theory Spec2Isabelle
  imports Complex_Main "HOL-Library.Sublist"
begin

section \<open>Flappy Bird: the game loop of FlappyBird.svelte\<close>

text \<open>
  A shallow embedding of the script block of
  \<^verbatim>\<open>src/flappy_bird_frontend/src/routes/FlappyBird.svelte\<close>.

  JavaScript numbers are modelled as mathematical numbers: coordinates and velocities
  as \<open>real\<close>, the score as \<open>int\<close>. Rounding of IEEE doubles and the values Infinity
  and -0 are not modelled. The one place where the source can produce NaN from
  well-formed input, \<^verbatim>\<open>parseInt\<close> of the stored best score, is modelled with an
  explicit NaN (type \<open>jsnum\<close>). Every sum, difference and product below is the
  source's own expression, with its operands in the source's order; the code rounds
  each of them to a double, the model does not. The properties are therefore stated
  with these expressions as the source has them, and not with rearrangements of them,
  which rounding would not respect.

  The module-level variables of the component become the fields of the record \<open>Game\<close>;
  every function of the source that assigns to them becomes a function from \<open>Game\<close> to
  \<open>Game\<close>. \<^verbatim>\<open>Math.random()\<close> is an explicit argument \<open>r\<close> of every function that
  may draw a random number. Drawing on the canvas (\<^verbatim>\<open>draw\<close>, \<^verbatim>\<open>roundedRect\<close>)
  reads the state and assigns to none of the variables; it is left out.
\<close>

subsection \<open>Constants (lines 9-19)\<close>

definition PIPE_WIDTH :: real where "PIPE_WIDTH = 52"
definition BIRD_SIZE :: real where "BIRD_SIZE = 36"
definition GRAVITY :: real where "GRAVITY = 0.55"
definition JUMP :: real where "JUMP = - 8.5"
definition PIPE_GAP :: real where "PIPE_GAP = 114"
definition PIPE_INTERVAL :: real where "PIPE_INTERVAL = 92"
definition BIRD_X :: real where "BIRD_X = 56"
definition GAME_SPEED :: real where "GAME_SPEED = 2.2"
definition GROUND_HEIGHT :: real where "GROUND_HEIGHT = 54"
definition MAX_PIPE_HEIGHT :: real where "MAX_PIPE_HEIGHT = 260"
definition MIN_PIPE_HEIGHT :: real where "MIN_PIPE_HEIGHT = 40"

subsection \<open>Data (lines 22-47)\<close>

text \<open>
  \<^verbatim>\<open>type Pipe = { x; width; height; gap; passed?: boolean }\<close>. A pipe is created
  without \<^verbatim>\<open>passed\<close>; the only read is \<^verbatim>\<open>!pipe.passed\<close>, where undefined counts
  as false, so the absent field is modelled as \<open>False\<close>.
\<close>

record Pipe =
  pipe_x :: real
  pipe_width :: real
  pipe_height :: real
  pipe_gap :: real
  passed :: bool

record Bird =
  bird_x :: real
  bird_y :: real
  bird_vy :: real
  bird_width :: real
  bird_height :: real

text \<open>A JavaScript number that is either an integer or NaN (the results of \<^verbatim>\<open>parseInt\<close>).\<close>

datatype jsnum = Num int | NaN

text \<open>
  The component's variables, and three fields for the host: \<open>frames\<close> holds the handles
  of the callbacks that \<^verbatim>\<open>requestAnimationFrame\<close> has queued and that have neither run
  nor been cancelled, \<open>frameCounter\<close> is the last handle the host has handed out
  (handles are positive, so the undefined initial \<^verbatim>\<open>animationFrame\<close> is 0, which
  names no callback), and \<open>storage\<close> is the \<^verbatim>\<open>localStorage\<close> entry
  \<^verbatim>\<open>flappybird_best\<close> (\<open>None\<close> when absent). The storage is taken to be
  available: reading and writing it does not throw.
\<close>

record Game =
  baseWidth :: real
  baseHeight :: real
  animationFrame :: nat
  gameStarted :: bool
  gamePaused :: bool
  gameOver :: bool
  score :: int
  bestScore :: jsnum
  pipes :: "Pipe list"
  bird :: Bird
  frames :: "nat list"
  frameCounter :: nat
  storage :: "string option"

subsection \<open>The hitbox test (lines 177-185)\<close>

definition isColliding ::
  "real \<Rightarrow> real \<Rightarrow> real \<Rightarrow> real \<Rightarrow> real \<Rightarrow> real \<Rightarrow> real \<Rightarrow> real \<Rightarrow> bool" where
  "isColliding x1 y1 w1 h1 x2 y2 w2 h2 =
     (x1 < x2 + w2 \<and> x1 + w1 > x2 \<and> y1 < y2 + h2 \<and> y1 + h1 > y2)"

subsection \<open>The host's frame scheduler and storage\<close>

text \<open>
  \<^verbatim>\<open>animationFrame = requestAnimationFrame(animate)\<close> queues one call of
  \<^verbatim>\<open>animate\<close> under a fresh handle and stores the handle;
  \<^verbatim>\<open>cancelAnimationFrame(animationFrame)\<close> removes the callback with the stored
  handle, if it is still queued.
\<close>

definition requestAnimationFrame :: "Game \<Rightarrow> Game" where
  "requestAnimationFrame s =
     s\<lparr>frameCounter := Suc (frameCounter s),
       frames := frames s @ [Suc (frameCounter s)],
       animationFrame := Suc (frameCounter s)\<rparr>"

definition cancelAnimationFrame :: "Game \<Rightarrow> Game" where
  "cancelAnimationFrame s = s\<lparr>frames := removeAll (animationFrame s) (frames s)\<rparr>"

text \<open>\<^verbatim>\<open>bestScore + ''\<close>: the decimal string of an integer.\<close>

function natToString :: "nat \<Rightarrow> string" where
  "natToString n =
     (if n < 10 then [''0123456789'' ! n]
      else natToString (n div 10) @ [''0123456789'' ! (n mod 10)])"
  by pat_completeness auto
termination
  by (relation "measure id") auto

declare natToString.simps [simp del]

definition numToString :: "int \<Rightarrow> string" where
  "numToString i = (if i < 0 then CHR ''-'' # natToString (nat (- i)) else natToString (nat i))"

subsection \<open>Game functions\<close>

text \<open>\<^verbatim>\<open>endGame\<close> (lines 187-190).\<close>

definition endGame :: "Game \<Rightarrow> Game" where
  "endGame s = cancelAnimationFrame (s\<lparr>gameOver := True\<rparr>)"

text \<open>\<^verbatim>\<open>addPipe\<close> (lines 98-107); \<open>r\<close> is the value of \<^verbatim>\<open>Math.random()\<close>.\<close>

definition topH :: "real \<Rightarrow> real" where
  "topH r = of_int \<lfloor>r * (MAX_PIPE_HEIGHT - MIN_PIPE_HEIGHT)\<rfloor> + MIN_PIPE_HEIGHT"

definition addPipe :: "real \<Rightarrow> Game \<Rightarrow> Game" where
  "addPipe r s =
     s\<lparr>pipes := pipes s @
        [\<lparr>pipe_x = baseWidth s, pipe_width = PIPE_WIDTH, pipe_height = topH r,
          pipe_gap = PIPE_GAP, passed = False\<rparr>]\<rparr>"

text \<open>\<^verbatim>\<open>resetGame\<close> (lines 85-96).\<close>

definition resetGame :: "real \<Rightarrow> Game \<Rightarrow> Game" where
  "resetGame r s =
     addPipe r
       (s\<lparr>pipes := [], score := 0,
          bird := \<lparr>bird_x = BIRD_X, bird_y = baseHeight s / 2, bird_vy = 0,
                   bird_width = BIRD_SIZE, bird_height = BIRD_SIZE\<rparr>\<rparr>)"

text \<open>\<^verbatim>\<open>flap\<close> (lines 79-83).\<close>

definition flap :: "Game \<Rightarrow> Game" where
  "flap s =
     (if \<not> gameStarted s then s
      else if gameOver s then s
      else s\<lparr>bird := (bird s)\<lparr>bird_vy := JUMP\<rparr>\<rparr>)"

subsection \<open>One tick: \<^verbatim>\<open>update\<close> (lines 120-174)\<close>

text \<open>Lines 122-123: \<^verbatim>\<open>bird.vy += GRAVITY; bird.y += bird.vy\<close>.\<close>

definition integrate :: "Bird \<Rightarrow> Bird" where
  "integrate b = b\<lparr>bird_vy := bird_vy b + GRAVITY, bird_y := bird_y b + (bird_vy b + GRAVITY)\<rparr>"

text \<open>
  The comparison of line 126, \<^verbatim>\<open>bird.y + BIRD_SIZE > baseHeight - GROUND_HEIGHT\<close>,
  for a height \<open>y\<close> of the bird and a height \<open>h\<close> of the world. The code compares the
  two sides as doubles, so for it this test is not the same as
  \<open>y > h - GROUND_HEIGHT - BIRD_SIZE\<close>; what a tick guarantees about the bird's height
  is stated with this test.
\<close>

definition groundTest :: "real \<Rightarrow> real \<Rightarrow> bool" where
  "groundTest y h = (y + BIRD_SIZE > h - GROUND_HEIGHT)"

text \<open>The test of line 126, on the integrated bird.\<close>

definition hitsGround :: "Game \<Rightarrow> bool" where
  "hitsGround s = groundTest (bird_y (integrate (bird s))) (baseHeight s)"

text \<open>Line 132: \<^verbatim>\<open>if (bird.y < 0) bird.y = 0\<close>.\<close>

definition ceiling_clamp :: "Bird \<Rightarrow> Bird" where
  "ceiling_clamp b = (if bird_y b < 0 then b\<lparr>bird_y := 0\<rparr> else b)"

text \<open>Lines 135-137: every pipe moves left by \<^verbatim>\<open>GAME_SPEED\<close>.\<close>

definition movePipe :: "Pipe \<Rightarrow> Pipe" where
  "movePipe p = p\<lparr>pipe_x := pipe_x p - GAME_SPEED\<rparr>"

text \<open>Lines 139-141: \<^verbatim>\<open>pipes.shift()\<close> when the first pipe has left the screen.\<close>

fun cullPipes :: "Pipe list \<Rightarrow> Pipe list" where
  "cullPipes [] = []"
| "cullPipes (p # ps) = (if pipe_x p + PIPE_WIDTH < 0 then ps else p # ps)"

text \<open>The pipes after lines 135-141.\<close>

definition advancedPipes :: "Game \<Rightarrow> Pipe list" where
  "advancedPipes s = cullPipes (map movePipe (pipes s))"

text \<open>The condition of line 143, on the pipes at that point.\<close>

definition spawnDue :: "real \<Rightarrow> Pipe list \<Rightarrow> bool" where
  "spawnDue w ps = (ps = [] \<or> pipe_x (last ps) < w - PIPE_INTERVAL)"

text \<open>
  The state when the loop of line 148 starts: bird integrated and clamped at the
  ceiling, pipes moved and culled, a pipe added when due.
\<close>

definition beforeScoring :: "real \<Rightarrow> Game \<Rightarrow> Game" where
  "beforeScoring r s =
     (let s1 = s\<lparr>bird := ceiling_clamp (integrate (bird s)), pipes := advancedPipes s\<rparr>
      in if spawnDue (baseWidth s1) (pipes s1) then addPipe r s1 else s1)"

text \<open>Lines 151-159: \<^verbatim>\<open>hitUpper || hitLower\<close> for one pipe.\<close>

definition hitsPipe :: "Game \<Rightarrow> Pipe \<Rightarrow> bool" where
  "hitsPipe s p =
     (let b = bird s;
          hitUpper = isColliding (bird_x b) (bird_y b) (bird_width b) (bird_height b)
                       (pipe_x p) 0 PIPE_WIDTH (pipe_height p);
          hitLower = isColliding (bird_x b) (bird_y b) (bird_width b) (bird_height b)
                       (pipe_x p) (pipe_height p + PIPE_GAP) PIPE_WIDTH
                       (baseHeight s - GROUND_HEIGHT - (pipe_height p + PIPE_GAP))
      in hitUpper \<or> hitLower)"

text \<open>Lines 165-171: the score goes up by one, and the best score follows it.\<close>

definition js_gt :: "int \<Rightarrow> jsnum \<Rightarrow> bool" where
  "js_gt a b = (case b of Num n \<Rightarrow> a > n | NaN \<Rightarrow> False)"

definition scorePoint :: "Game \<Rightarrow> Game" where
  "scorePoint s =
     (let s1 = s\<lparr>score := score s + 1\<rparr>
      in if js_gt (score s1) (bestScore s1)
         then s1\<lparr>bestScore := Num (score s1), storage := Some (numToString (score s1))\<rparr>
         else s1)"

text \<open>
  The loop of lines 148-173 over the pipes still to visit. It returns the pipes as the
  loop leaves them (the flag \<^verbatim>\<open>passed\<close> is set in place) and the state; on a hit it
  ends the game and visits no further pipe.
\<close>

fun collideAndScore :: "Pipe list \<Rightarrow> Game \<Rightarrow> Pipe list \<times> Game" where
  "collideAndScore [] s = ([], s)"
| "collideAndScore (p # ps) s =
     (if hitsPipe s p then (p # ps, endGame s)
      else if \<not> passed p \<and> bird_x (bird s) > pipe_x p + PIPE_WIDTH
      then (case collideAndScore ps (scorePoint s) of
              (ps', s') \<Rightarrow> (p\<lparr>passed := True\<rparr> # ps', s'))
      else (case collideAndScore ps s of (ps', s') \<Rightarrow> (p # ps', s')))"

definition update :: "real \<Rightarrow> Game \<Rightarrow> Game" where
  "update r s =
     (if hitsGround s
      then endGame (s\<lparr>bird := (integrate (bird s))
                      \<lparr>bird_y := baseHeight s - GROUND_HEIGHT - BIRD_SIZE\<rparr>\<rparr>)
      else let s1 = beforeScoring r s
           in (case collideAndScore (pipes s1) s1 of (ps', s') \<Rightarrow> s'\<lparr>pipes := ps'\<rparr>))"

subsection \<open>The frame loop and the controls\<close>

text \<open>\<^verbatim>\<open>animate\<close> (lines 109-118).\<close>

definition animate :: "real \<Rightarrow> Game \<Rightarrow> Game" where
  "animate r s =
     (if gamePaused s then s
      else let s1 = update r s
           in if \<not> gameOver s1 then requestAnimationFrame s1 else s1)"

text \<open>
  \<^verbatim>\<open>startGame\<close> (lines 54-60); \<open>r1\<close> is drawn by \<^verbatim>\<open>resetGame\<close>, \<open>r2\<close> by the tick
  that \<^verbatim>\<open>animate\<close> runs at once.
\<close>

definition startGame :: "real \<Rightarrow> real \<Rightarrow> Game \<Rightarrow> Game" where
  "startGame r1 r2 s =
     animate r2 ((resetGame r1 s)\<lparr>gameStarted := True, gameOver := False, gamePaused := False\<rparr>)"

text \<open>\<^verbatim>\<open>togglePause\<close> (lines 64-73).\<close>

definition togglePause :: "real \<Rightarrow> Game \<Rightarrow> Game" where
  "togglePause r s =
     (if \<not> gameStarted s \<or> gameOver s then s
      else if gamePaused s then animate r (s\<lparr>gamePaused := False\<rparr>)
      else cancelAnimationFrame (s\<lparr>gamePaused := True\<rparr>))"

text \<open>
  \<^verbatim>\<open>resizeCanvas\<close> (lines 342-352); \<open>iw\<close> is \<^verbatim>\<open>window.innerWidth\<close>. Only the two
  assignments to the world's size change the state.
\<close>

definition resizeCanvas :: "real \<Rightarrow> Game \<Rightarrow> Game" where
  "resizeCanvas iw s =
     (let width = (if iw > 480 then 400 else min 400 (iw - 20));
          height = (width / 400) * 600
      in s\<lparr>baseWidth := width, baseHeight := height\<rparr>)"

text \<open>\<^verbatim>\<open>handleStartInput\<close> (lines 354-362), called by \<^verbatim>\<open>onTouchStart\<close> and \<^verbatim>\<open>onClick\<close>.\<close>

definition handleStartInput :: "real \<Rightarrow> real \<Rightarrow> Game \<Rightarrow> Game" where
  "handleStartInput r1 r2 s =
     (if \<not> gameStarted s \<or> (gameOver s \<and> \<not> gamePaused s) then startGame r1 r2 s
      else if gamePaused s then togglePause r1 s
      else flap s)"

text \<open>
  \<^verbatim>\<open>onKeydown\<close> (lines 365-382); \<open>k\<close> is \<^verbatim>\<open>e.key\<close>. The three \<^verbatim>\<open>if\<close> statements
  run one after the other, each on the state the one before has left.
  \<^verbatim>\<open>e.key.toLowerCase() === 'p'\<close> holds for \<^verbatim>\<open>p\<close> and \<^verbatim>\<open>P\<close> only.
\<close>

definition onKeydown :: "string \<Rightarrow> real \<Rightarrow> real \<Rightarrow> Game \<Rightarrow> Game" where
  "onKeydown k r1 r2 s =
     (let s1 = (if k = '' '' \<or> k = ''ArrowUp''
                then (if \<not> gameStarted s \<or> gameOver s then startGame r1 r2 s
                      else if gamePaused s then togglePause r1 s
                      else flap s)
                else s);
          s2 = (if (k = ''p'' \<or> k = ''P'') \<and> gameStarted s1 \<and> \<not> gameOver s1
                then togglePause r1 s1 else s1)
      in if (k = ''r'' \<or> k = ''R'') \<and> gameOver s2 then startGame r1 r2 s2 else s2)"

subsection \<open>Loading the best score (\<^verbatim>\<open>onMount\<close>, lines 394-422)\<close>

text \<open>
  The language's builtin \<^verbatim>\<open>parseInt(string)\<close> with no radix, after its definition in
  the ECMAScript standard: leading white space is dropped, then one sign, then the prefix
  \<^verbatim>\<open>0x\<close> or \<^verbatim>\<open>0X\<close> (which makes the radix 16, otherwise it is 10); the longest run
  of digits of that radix is the number, anything after it is ignored, and there is no
  number (NaN) when that run is empty. Strings are ASCII here, so the white space is
  TAB, LF, VT, FF, CR and SPACE.
\<close>

definition isWhiteSpace :: "char \<Rightarrow> bool" where
  "isWhiteSpace c = (c \<in> set [CHR 0x09, CHR 0x0A, CHR 0x0B, CHR 0x0C, CHR 0x0D, CHR '' ''])"

definition digitOf :: "char \<Rightarrow> nat option" where
  "digitOf c =
     (let n = (of_char c :: nat)
      in if 48 \<le> n \<and> n \<le> 57 then Some (n - 48)
         else if 97 \<le> n \<and> n \<le> 122 then Some (n - 87)
         else if 65 \<le> n \<and> n \<le> 90 then Some (n - 55)
         else None)"

fun digitsPrefix :: "nat \<Rightarrow> string \<Rightarrow> nat list" where
  "digitsPrefix R [] = []"
| "digitsPrefix R (c # cs) =
     (case digitOf c of
        None \<Rightarrow> []
      | Some d \<Rightarrow> if d < R then d # digitsPrefix R cs else [])"

definition parseInt :: "string \<Rightarrow> jsnum" where
  "parseInt str =
     (let S = dropWhile isWhiteSpace str;
          sign = (if S \<noteq> [] \<and> hd S = CHR ''-'' then - 1 else 1);
          S1 = (if S \<noteq> [] \<and> (hd S = CHR ''+'' \<or> hd S = CHR ''-'') then tl S else S);
          hex = (take 2 S1 = ''0x'' \<or> take 2 S1 = ''0X'');
          R = (if hex then 16 else 10);
          Z = digitsPrefix R (if hex then drop 2 S1 else S1)
      in if Z = [] then NaN else Num (sign * int (foldl (\<lambda>a d. a * R + d) 0 Z)))"

text \<open>
  Line 410, \<^verbatim>\<open>raw ? parseInt(raw) : 0\<close>, where \<open>raw\<close> is the stored string or null;
  null and the empty string are falsy. The source has the expression inline in
  \<^verbatim>\<open>onMount\<close>; the name is the specification's.
\<close>

definition loadBestScore :: "string option \<Rightarrow> jsnum" where
  "loadBestScore raw =
     (case raw of
        None \<Rightarrow> Num 0
      | Some str \<Rightarrow> if str = [] then Num 0 else parseInt str)"

text \<open>The values the variables are declared with (lines 22-47), over a given storage.\<close>

definition initial :: "string option \<Rightarrow> Game" where
  "initial raw =
     \<lparr>baseWidth = 400, baseHeight = 600, animationFrame = 0,
      gameStarted = False, gamePaused = False, gameOver = False,
      score = 0, bestScore = Num 0, pipes = [],
      bird = \<lparr>bird_x = BIRD_X, bird_y = 600 / 2, bird_vy = 0,
               bird_width = BIRD_SIZE, bird_height = BIRD_SIZE\<rparr>,
      frames = [], frameCounter = 0, storage = raw\<rparr>"

text \<open>The state changes of \<^verbatim>\<open>onMount\<close>: the first sizing, then the best score.\<close>

definition onMount :: "real \<Rightarrow> Game \<Rightarrow> Game" where
  "onMount iw s = (let s1 = resizeCanvas iw s in s1\<lparr>bestScore := loadBestScore (storage s1)\<rparr>)"

subsection \<open>Runs\<close>

text \<open>
  Everything that can happen to a mounted component: a call of one of the three
  functions marked \<^verbatim>\<open>PUBLIC_INTERFACE\<close>, the host running a queued frame callback
  (a tick), a pointer press (\<^verbatim>\<open>mousedown\<close> or \<^verbatim>\<open>touchstart\<close>), a key press, and
  a resize of the window. A frame callback runs only if its handle is queued, and
  leaves the queue when it runs.
\<close>

datatype event =
    StartGame real real
  | TogglePause real
  | Flap
  | Frame nat real
  | Pointer real real
  | KeyDown string real real
  | Resize real

fun step :: "event \<Rightarrow> Game \<Rightarrow> Game" where
  "step (StartGame r1 r2) s = startGame r1 r2 s"
| "step (TogglePause r) s = togglePause r s"
| "step Flap s = flap s"
| "step (Frame h r) s =
     (if h \<in> set (frames s) then animate r (s\<lparr>frames := removeAll h (frames s)\<rparr>) else s)"
| "step (Pointer r1 r2) s = handleStartInput r1 r2 s"
| "step (KeyDown k r1 r2) s = onKeydown k r1 r2 s"
| "step (Resize iw) s = resizeCanvas iw s"

fun run :: "event list \<Rightarrow> Game \<Rightarrow> Game" where
  "run [] s = s"
| "run (e # es) s = run es (step e s)"

text \<open>
  The four states of the specification, read off the three flags. The source has no
  such type; this is the specification's view of the flags.
\<close>

datatype GameState = NotStarted | Running | Paused | GameOver

definition gameState :: "Game \<Rightarrow> GameState" where
  "gameState s =
     (if \<not> gameStarted s then NotStarted
      else if gameOver s then GameOver
      else if gamePaused s then Paused
      else Running)"

subsection \<open>Vocabulary of the properties\<close>

text \<open>
  The loop of line 148 gets as far as the scoring test of line 164 for the pipe at
  index \<open>i\<close>: neither that pipe nor any pipe before it is hit.
\<close>

definition reachesScoring :: "Game \<Rightarrow> Pipe list \<Rightarrow> nat \<Rightarrow> bool" where
  "reachesScoring s ps i = list_all (\<lambda>p. \<not> hitsPipe s p) (take (Suc i) ps)"

text \<open>The number of positions at which \<^verbatim>\<open>passed\<close> is false in \<open>ps\<close> and true in \<open>ps'\<close>.\<close>

definition flips :: "Pipe list \<Rightarrow> Pipe list \<Rightarrow> nat" where
  "flips ps ps' = length (filter (\<lambda>(p, p'). \<not> passed p \<and> passed p') (zip ps ps'))"

text \<open>A pipe without its flag: its position and shape.\<close>

definition unflag :: "Pipe \<Rightarrow> Pipe" where
  "unflag p = p\<lparr>passed := False\<rparr>"

text \<open>
  The best score has not gone down from \<open>a\<close> to \<open>b\<close>. A best score that is NaN stays
  NaN (no score compares greater than it), which counts as not going down.
\<close>

definition best_le :: "jsnum \<Rightarrow> jsnum \<Rightarrow> bool" where
  "best_le a b =
     (case a of
        Num m \<Rightarrow> (case b of Num n \<Rightarrow> m \<le> n | NaN \<Rightarrow> False)
      | NaN \<Rightarrow> (case b of Num n \<Rightarrow> False | NaN \<Rightarrow> True))"

definition isFrame :: "event \<Rightarrow> bool" where
  "isFrame e = (case e of Frame h r \<Rightarrow> True | _ \<Rightarrow> False)"

text \<open>
  The events that, in a paused game, lead to no call of \<^verbatim>\<open>togglePause\<close>,
  \<^verbatim>\<open>flap\<close> or \<^verbatim>\<open>startGame\<close>: a frame callback, a resize, and a press of a key
  other than Space, ArrowUp, p and P (the key r restarts only a game that is over).
\<close>

fun idle :: "event \<Rightarrow> bool" where
  "idle (Frame h r) = True"
| "idle (Resize iw) = True"
| "idle (KeyDown k r1 r2) = (k \<notin> set ['' '', ''ArrowUp'', ''p'', ''P''])"
| "idle (StartGame r1 r2) = False"
| "idle (TogglePause r) = False"
| "idle Flap = False"
| "idle (Pointer r1 r2) = False"

text \<open>
  What the flags and the frame queue satisfy in every run: paused only while started
  and not over, over only when started, frames queued only when started.
\<close>

definition flagsOK :: "Game \<Rightarrow> bool" where
  "flagsOK s =
     ((gameStarted s \<or> \<not> gamePaused s) \<and> (gameStarted s \<or> \<not> gameOver s)
      \<and> (gameStarted s \<or> frames s = []) \<and> \<not> (gamePaused s \<and> gameOver s))"

text \<open>A game on the default 400 by 600 world, started and paused after its first tick.\<close>

definition pausedExample :: Game where
  "pausedExample = togglePause 0 (startGame (1/2) 0 (onMount 1000 (initial None)))"

text \<open>
  A run that starts a game on the default world, flaps before each of the next 38 ticks
  (the bird climbs to the ceiling), then has the window shrink to an inner width of 76
  (a world of 56 by 84), and flaps once more; and the state it ends in.
\<close>

definition lowWorldRun :: "event list" where
  "lowWorldRun =
     StartGame (1/2) 0 # concat (map (\<lambda>k. [Flap, Frame k 0]) [1..<39]) @ [Resize 76, Flap]"

definition lowWorldExample :: Game where
  "lowWorldExample =
     \<lparr>baseWidth = 56, baseHeight = 84, animationFrame = 39,
      gameStarted = True, gamePaused = False, gameOver = False,
      score = 0, bestScore = Num 0,
      pipes = [\<lparr>pipe_x = 314.2, pipe_width = 52, pipe_height = 150, pipe_gap = 114,
                passed = False\<rparr>],
      bird = \<lparr>bird_x = 56, bird_y = 0, bird_vy = - 8.5, bird_width = 36, bird_height = 36\<rparr>,
      frames = [39], frameCounter = 39, storage = None\<rparr>"

text \<open>
  A running game on the default world in which the bird, in the gap, has just cleared
  the first of two pipes.
\<close>

definition scoringExample :: Game where
  "scoringExample =
     \<lparr>baseWidth = 400, baseHeight = 600, animationFrame = 181,
      gameStarted = True, gamePaused = False, gameOver = False,
      score = 0, bestScore = Num 0,
      pipes = [\<lparr>pipe_x = 4, pipe_width = 52, pipe_height = 150, pipe_gap = 114,
                passed = False\<rparr>,
               \<lparr>pipe_x = 96.4, pipe_width = 52, pipe_height = 150, pipe_gap = 114,
                passed = False\<rparr>],
      bird = \<lparr>bird_x = 56, bird_y = 200, bird_vy = 0, bird_width = 36, bird_height = 36\<rparr>,
      frames = [181], frameCounter = 181, storage = None\<rparr>"

text \<open>The same game with the bird so low that the next tick takes it into the ground.\<close>

definition groundExample :: Game where
  "groundExample = scoringExample\<lparr>bird := (bird scoringExample)\<lparr>bird_y := 509.5\<rparr>\<rparr>"

section \<open>Properties\<close>

lemmas consts_defs =
  PIPE_WIDTH_def BIRD_SIZE_def GRAVITY_def JUMP_def PIPE_GAP_def PIPE_INTERVAL_def
  BIRD_X_def GAME_SPEED_def GROUND_HEIGHT_def MAX_PIPE_HEIGHT_def MIN_PIPE_HEIGHT_def

lemmas tick_defs =
  startGame_def animate_def update_def hitsGround_def groundTest_def integrate_def resetGame_def addPipe_def
  beforeScoring_def ceiling_clamp_def advancedPipes_def movePipe_def spawnDue_def hitsPipe_def
  isColliding_def topH_def endGame_def cancelAnimationFrame_def requestAnimationFrame_def
  togglePause_def flap_def scorePoint_def js_gt_def

lemmas mount_defs = onMount_def initial_def resizeCanvas_def loadBestScore_def

subsection \<open>The example states\<close>

lemma pausedExample_eq:
  "pausedExample =
     \<lparr>baseWidth = 400, baseHeight = 600, animationFrame = 1,
      gameStarted = True, gamePaused = True, gameOver = False,
      score = 0, bestScore = Num 0,
      pipes = [\<lparr>pipe_x = 397.8, pipe_width = 52, pipe_height = 150, pipe_gap = 114,
                passed = False\<rparr>],
      bird = \<lparr>bird_x = 56, bird_y = 300.55, bird_vy = 0.55, bird_width = 36,
               bird_height = 36\<rparr>,
      frames = [], frameCounter = 1, storage = None\<rparr>"
  by (simp add: pausedExample_def tick_defs mount_defs consts_defs Let_def)

lemma lowWorldExample_reached:
  "run lowWorldRun (onMount 1000 (initial None)) = lowWorldExample"
  by (simp add: lowWorldRun_def upt_rec lowWorldExample_def tick_defs mount_defs
      consts_defs Let_def)

lemma scoringExample_tick:
  "update (1/2) scoringExample =
     \<lparr>baseWidth = 400, baseHeight = 600, animationFrame = 181,
      gameStarted = True, gamePaused = False, gameOver = False,
      score = 1, bestScore = Num 1,
      pipes = [\<lparr>pipe_x = 1.8, pipe_width = 52, pipe_height = 150, pipe_gap = 114,
                passed = True\<rparr>,
               \<lparr>pipe_x = 94.2, pipe_width = 52, pipe_height = 150, pipe_gap = 114,
                passed = False\<rparr>,
               \<lparr>pipe_x = 400, pipe_width = 52, pipe_height = 150, pipe_gap = 114,
                passed = False\<rparr>],
      bird = \<lparr>bird_x = 56, bird_y = 200.55, bird_vy = 0.55, bird_width = 36,
               bird_height = 36\<rparr>,
      frames = [181], frameCounter = 181, storage = Some ''1''\<rparr>"
  by (simp add: scoringExample_def tick_defs consts_defs Let_def numToString_def
      natToString.simps [of "Suc 0"])

lemma groundExample_tick:
  "update 0 groundExample =
     scoringExample\<lparr>bird := (bird scoringExample)\<lparr>bird_vy := 0.55, bird_y := 510\<rparr>,
                    gameOver := True, frames := []\<rparr>"
  by (simp add: groundExample_def scoringExample_def tick_defs consts_defs Let_def)

lemma pausedExample_run:
  "run [StartGame (1/2) 0, TogglePause 0] (onMount 1000 (initial None)) = pausedExample"
  by (simp add: pausedExample_def)

subsection \<open>The hitbox test\<close>

text \<open>
  C2: \<^verbatim>\<open>isColliding\<close> is true exactly when the four strict inequalities hold; it is
  symmetric in the two boxes; and two boxes that touch along an edge (left to right,
  right to left, top to bottom, bottom to top) do not collide.
\<close>

theorem isColliding_strict_symmetric:
  "(isColliding x1 y1 w1 h1 x2 y2 w2 h2 \<longleftrightarrow>
      x1 < x2 + w2 \<and> x1 + w1 > x2 \<and> y1 < y2 + h2 \<and> y1 + h1 > y2)
   \<and> isColliding x1 y1 w1 h1 x2 y2 w2 h2 = isColliding x2 y2 w2 h2 x1 y1 w1 h1
   \<and> \<not> isColliding x1 y1 w1 h1 (x1 + w1) y2 w2 h2
   \<and> \<not> isColliding (x2 + w2) y1 w1 h1 x2 y2 w2 h2
   \<and> \<not> isColliding x1 y1 w1 h1 x2 (y1 + h1) w2 h2
   \<and> \<not> isColliding x1 (y2 + h2) w1 h1 x2 y2 w2 h2"
  by (auto simp: isColliding_def)

subsection \<open>Loading the best score\<close>

text \<open>
  C5: what line 410 makes of four stored values. An absent entry and the empty string
  give 0, a decimal string gives its number; a string that does not start with a number
  gives NaN, not 0, and from then on no score compares greater than the best score.
\<close>

theorem loadBestScore_unparsable:
  "loadBestScore (Some ''abc'') = NaN
   \<and> loadBestScore None = Num 0 \<and> loadBestScore (Some []) = Num 0
   \<and> loadBestScore (Some ''12'') = Num 12
   \<and> \<not> js_gt n (loadBestScore (Some ''abc''))"
  by (simp add: loadBestScore_def parseInt_def isWhiteSpace_def digitOf_def js_gt_def)

subsection \<open>Flapping\<close>

text \<open>
  C6, as stated, fails: in the paused example \<^verbatim>\<open>flap\<close> is not a no-op, it replaces
  the velocity 0.55 by -8.5.
\<close>

theorem flap_paused_counterexample:
  "gameState pausedExample = Paused \<and> flap pausedExample \<noteq> pausedExample
   \<and> bird_vy (bird pausedExample) = 0.55 \<and> bird_vy (bird (flap pausedExample)) = - 8.5"
  by (simp add: pausedExample_eq gameState_def flap_def JUMP_def)

text \<open>
  C6, amended: \<^verbatim>\<open>flap\<close> tests only whether the game has started and is not over.
  While Running, and also while Paused, it sets the bird's vertical velocity to exactly
  -8.5, whatever it was, and changes nothing else; in NotStarted and GameOver it returns
  the state as it is. The two input routers never call it while paused: there they
  call \<^verbatim>\<open>togglePause\<close>.
\<close>

theorem flap_by_state:
  "(gameState s = Running \<or> gameState s = Paused \<longrightarrow>
      flap s = s\<lparr>bird := (bird s)\<lparr>bird_vy := - 8.5\<rparr>\<rparr>)
   \<and> (gameState s = NotStarted \<or> gameState s = GameOver \<longrightarrow> flap s = s)
   \<and> (gameState s = Paused \<longrightarrow>
        handleStartInput r1 r2 s = togglePause r1 s
        \<and> onKeydown '' '' r1 r2 s = togglePause r1 s
        \<and> onKeydown ''ArrowUp'' r1 r2 s = togglePause r1 s)"
  by (auto simp: gameState_def flap_def JUMP_def handleStartInput_def onKeydown_def
      split: if_splits)

theorem flap_by_state_witness:
  "gameState scoringExample = Running
   \<and> flap scoringExample = scoringExample\<lparr>bird := (bird scoringExample)\<lparr>bird_vy := - 8.5\<rparr>\<rparr>
   \<and> gameState pausedExample = Paused
   \<and> flap pausedExample = pausedExample\<lparr>bird := (bird pausedExample)\<lparr>bird_vy := - 8.5\<rparr>\<rparr>
   \<and> gameState (initial None) = NotStarted \<and> flap (initial None) = initial None
   \<and> gameState (update 0 groundExample) = GameOver
   \<and> flap (update 0 groundExample) = update 0 groundExample
   \<and> handleStartInput 0 0 pausedExample = togglePause 0 pausedExample"
proof -
  have r: "gameState scoringExample = Running"
    by (simp add: scoringExample_def gameState_def)
  have p: "gameState pausedExample = Paused"
    by (simp add: pausedExample_eq gameState_def)
  have n: "gameState (initial None) = NotStarted"
    by (simp add: initial_def gameState_def)
  have g: "gameState (update 0 groundExample) = GameOver"
    by (simp add: groundExample_tick scoringExample_def gameState_def)
  show ?thesis
    using r p n g flap_by_state [of scoringExample 0 0] flap_by_state [of pausedExample 0 0]
      flap_by_state [of "initial None" 0 0] flap_by_state [of "update 0 groundExample" 0 0]
    by simp
qed

subsection \<open>Facts about one tick\<close>

lemma scorePoint_keeps:
  "bird (scorePoint s) = bird s" "baseHeight (scorePoint s) = baseHeight s"
  "baseWidth (scorePoint s) = baseWidth s" "gameStarted (scorePoint s) = gameStarted s"
  "gamePaused (scorePoint s) = gamePaused s" "gameOver (scorePoint s) = gameOver s"
  "frames (scorePoint s) = frames s" "frameCounter (scorePoint s) = frameCounter s"
  "animationFrame (scorePoint s) = animationFrame s" "pipes (scorePoint s) = pipes s"
  "score (scorePoint s) = score s + 1"
  by (simp_all add: scorePoint_def Let_def)

lemma endGame_keeps:
  "bird (endGame s) = bird s" "baseHeight (endGame s) = baseHeight s"
  "baseWidth (endGame s) = baseWidth s" "gameStarted (endGame s) = gameStarted s"
  "gamePaused (endGame s) = gamePaused s" "gameOver (endGame s)"
  "frames (endGame s) = removeAll (animationFrame s) (frames s)"
  "frameCounter (endGame s) = frameCounter s"
  "animationFrame (endGame s) = animationFrame s" "pipes (endGame s) = pipes s"
  "score (endGame s) = score s" "bestScore (endGame s) = bestScore s"
  "storage (endGame s) = storage s"
  by (simp_all add: endGame_def cancelAnimationFrame_def)

lemma hitsPipe_cong:
  "bird s' = bird s \<Longrightarrow> baseHeight s' = baseHeight s \<Longrightarrow> hitsPipe s' p = hitsPipe s p"
  by (simp add: hitsPipe_def)

lemma collideAndScore_keeps:
  "collideAndScore ps s = (ps', s') \<Longrightarrow>
     bird s' = bird s \<and> baseHeight s' = baseHeight s \<and> baseWidth s' = baseWidth s
     \<and> gameStarted s' = gameStarted s \<and> gamePaused s' = gamePaused s
     \<and> frameCounter s' = frameCounter s \<and> animationFrame s' = animationFrame s
     \<and> pipes s' = pipes s \<and> (gameOver s \<longrightarrow> gameOver s')
     \<and> set (frames s') \<subseteq> set (frames s) \<and> score s \<le> score s'"
proof (induction ps arbitrary: s ps' s')
  case Nil
  then show ?case by simp
next
  case (Cons p ps)
  show ?case
  proof (cases "hitsPipe s p")
    case True
    with Cons.prems show ?thesis by (auto simp: endGame_keeps)
  next
    case False
    show ?thesis
    proof (cases "\<not> passed p \<and> bird_x (bird s) > pipe_x p + PIPE_WIDTH")
      case True
      obtain qs t where r: "collideAndScore ps (scorePoint s) = (qs, t)" by fastforce
      with Cons.prems False True have "s' = t" by simp
      with Cons.IH [OF r] show ?thesis by (simp add: scorePoint_keeps)
    next
      case nopass: False
      obtain qs t where r: "collideAndScore ps s = (qs, t)" by fastforce
      with Cons.prems False nopass have "s' = t" by auto
      with Cons.IH [OF r] show ?thesis by simp
    qed
  qed
qed

lemma reachesScoring_Cons:
  "reachesScoring s (p # ps) 0 = (\<not> hitsPipe s p)"
  "reachesScoring s (p # ps) (Suc i) = (\<not> hitsPipe s p \<and> reachesScoring s ps i)"
  by (simp_all add: reachesScoring_def)

lemma collideAndScore_flags:
  "collideAndScore ps s = (ps', s') \<Longrightarrow>
     length ps' = length ps
     \<and> (\<forall>i<length ps. ps' ! i = (ps ! i)\<lparr>passed := passed (ps ! i) \<or>
            (reachesScoring s ps i \<and> bird_x (bird s) > pipe_x (ps ! i) + PIPE_WIDTH)\<rparr>)
     \<and> score s' = score s + int (flips ps ps')"
proof (induction ps arbitrary: s ps' s')
  case Nil
  then show ?case by (simp add: flips_def)
next
  case (Cons p ps)
  show ?case
  proof (cases "hitsPipe s p")
    case True
    with Cons.prems have e: "ps' = p # ps" "s' = endGame s" by auto
    have "\<And>i. \<not> reachesScoring s (p # ps) i"
      using True by (case_tac i) (simp_all add: reachesScoring_Cons)
    moreover have "flips (p # ps) (p # ps) = 0"
      by (auto simp: flips_def filter_empty_conv in_set_zip)
    ultimately show ?thesis using e by (simp add: endGame_keeps)
  next
    case False
    show ?thesis
    proof (cases "\<not> passed p \<and> bird_x (bird s) > pipe_x p + PIPE_WIDTH")
      case True
      obtain qs t where r: "collideAndScore ps (scorePoint s) = (qs, t)" by fastforce
      with Cons.prems False True have e: "ps' = p\<lparr>passed := True\<rparr> # qs" "s' = t" by auto
      have rs: "reachesScoring (scorePoint s) ps i = reachesScoring s ps i" for i
        by (simp add: reachesScoring_def hitsPipe_cong [of "scorePoint s" s] scorePoint_keeps)
      from Cons.IH [OF r] have ih: "length qs = length ps"
        "\<forall>i<length ps. qs ! i = (ps ! i)\<lparr>passed := passed (ps ! i) \<or>
            (reachesScoring s ps i \<and> bird_x (bird s) > pipe_x (ps ! i) + PIPE_WIDTH)\<rparr>"
        "score t = score s + 1 + int (flips ps qs)"
        by (simp_all add: rs scorePoint_keeps)
      have "\<forall>i<length (p # ps). ps' ! i = ((p # ps) ! i)\<lparr>passed := passed ((p # ps) ! i) \<or>
            (reachesScoring s (p # ps) i \<and> bird_x (bird s) > pipe_x ((p # ps) ! i) + PIPE_WIDTH)\<rparr>"
      proof (intro allI impI)
        fix i assume "i < length (p # ps)"
        then show "ps' ! i = ((p # ps) ! i)\<lparr>passed := passed ((p # ps) ! i) \<or>
            (reachesScoring s (p # ps) i \<and> bird_x (bird s) > pipe_x ((p # ps) ! i) + PIPE_WIDTH)\<rparr>"
          using ih(2) False True e by (cases i) (simp_all add: reachesScoring_Cons)
      qed
      moreover have "flips (p # ps) ps' = Suc (flips ps qs)"
        using True e by (simp add: flips_def)
      ultimately show ?thesis using ih e by simp
    next
      case nopass: False
      obtain qs t where r: "collideAndScore ps s = (qs, t)" by fastforce
      with Cons.prems False nopass have e: "ps' = p # qs" "s' = t" by auto
      from Cons.IH [OF r] have ih: "length qs = length ps"
        "\<forall>i<length ps. qs ! i = (ps ! i)\<lparr>passed := passed (ps ! i) \<or>
            (reachesScoring s ps i \<and> bird_x (bird s) > pipe_x (ps ! i) + PIPE_WIDTH)\<rparr>"
        "score t = score s + int (flips ps qs)"
        by simp_all
      have "\<forall>i<length (p # ps). ps' ! i = ((p # ps) ! i)\<lparr>passed := passed ((p # ps) ! i) \<or>
            (reachesScoring s (p # ps) i \<and> bird_x (bird s) > pipe_x ((p # ps) ! i) + PIPE_WIDTH)\<rparr>"
      proof (intro allI impI)
        fix i assume "i < length (p # ps)"
        then show "ps' ! i = ((p # ps) ! i)\<lparr>passed := passed ((p # ps) ! i) \<or>
            (reachesScoring s (p # ps) i \<and> bird_x (bird s) > pipe_x ((p # ps) ! i) + PIPE_WIDTH)\<rparr>"
          using ih(2) False nopass e by (cases i) (auto simp add: reachesScoring_Cons)
      qed
      moreover have "flips (p # ps) ps' = flips ps qs"
        using e by (simp add: flips_def)
      ultimately show ?thesis using ih e by simp
    qed
  qed
qed


lemma passed_movePipe: "map (passed \<circ> movePipe) ps = map passed ps"
  by (induction ps) (simp_all add: movePipe_def)

lemma passed_advancedPipes: "suffix (map passed (advancedPipes s)) (map passed (pipes s))"
proof (cases "pipes s")
  case Nil
  then show ?thesis by (simp add: advancedPipes_def)
next
  case (Cons p ps)
  then show ?thesis
    by (auto simp: advancedPipes_def passed_movePipe movePipe_def intro: suffix_ConsI)
qed

lemma beforeScoring_fields:
  "bird (beforeScoring r s) = ceiling_clamp (integrate (bird s))"
  "baseHeight (beforeScoring r s) = baseHeight s"
  "baseWidth (beforeScoring r s) = baseWidth s"
  "score (beforeScoring r s) = score s"
  "bestScore (beforeScoring r s) = bestScore s"
  "storage (beforeScoring r s) = storage s"
  "gameStarted (beforeScoring r s) = gameStarted s"
  "gamePaused (beforeScoring r s) = gamePaused s"
  "gameOver (beforeScoring r s) = gameOver s"
  "frames (beforeScoring r s) = frames s"
  "frameCounter (beforeScoring r s) = frameCounter s"
  "animationFrame (beforeScoring r s) = animationFrame s"
  by (simp_all add: beforeScoring_def addPipe_def Let_def)

lemma beforeScoring_pipes:
  "pipes (beforeScoring r s) =
     advancedPipes s @
       (if spawnDue (baseWidth s) (advancedPipes s)
        then [\<lparr>pipe_x = baseWidth s, pipe_width = PIPE_WIDTH, pipe_height = topH r,
               pipe_gap = PIPE_GAP, passed = False\<rparr>]
        else [])"
  by (simp add: beforeScoring_def addPipe_def Let_def)

lemma bird_x_tick: "bird_x (ceiling_clamp (integrate b)) = bird_x b"
  by (simp add: ceiling_clamp_def integrate_def)

lemma update_ground:
  "hitsGround s \<Longrightarrow>
     update r s = s\<lparr>bird := (bird s)\<lparr>bird_vy := bird_vy (bird s) + GRAVITY,
                                     bird_y := baseHeight s - GROUND_HEIGHT - BIRD_SIZE\<rparr>,
                    gameOver := True,
                    frames := removeAll (animationFrame s) (frames s)\<rparr>"
  by (simp add: update_def endGame_def cancelAnimationFrame_def integrate_def)

lemma update_scoring:
  "\<not> hitsGround s \<Longrightarrow> collideAndScore (pipes (beforeScoring r s)) (beforeScoring r s) = (ps', s')
     \<Longrightarrow> update r s = s'\<lparr>pipes := ps'\<rparr>"
  by (simp add: update_def Let_def)

lemma collideAndScore_unflag:
  "collideAndScore ps s = (ps', s') \<Longrightarrow> map unflag ps' = map unflag ps"
proof (induction ps arbitrary: s ps' s')
  case Nil
  then show ?case by simp
next
  case (Cons p ps)
  then show ?case
    by (auto simp: unflag_def split: if_splits prod.splits)
qed

lemma update_bird:
  "\<not> hitsGround s \<Longrightarrow> bird (update r s) = ceiling_clamp (integrate (bird s))"
proof -
  assume g: "\<not> hitsGround s"
  obtain ps' s' where c:
    "collideAndScore (pipes (beforeScoring r s)) (beforeScoring r s) = (ps', s')"
    by fastforce
  show ?thesis
    using collideAndScore_keeps [OF c] update_scoring [OF g c]
    by (simp add: beforeScoring_fields)
qed

lemma update_keeps:
  "gameStarted (update r s) = gameStarted s" "gamePaused (update r s) = gamePaused s"
  "baseWidth (update r s) = baseWidth s" "baseHeight (update r s) = baseHeight s"
  "frameCounter (update r s) = frameCounter s" "animationFrame (update r s) = animationFrame s"
  "gameOver s \<Longrightarrow> gameOver (update r s)" "set (frames (update r s)) \<subseteq> set (frames s)"
  "score s \<le> score (update r s)"
proof -
  obtain ps' s' where c:
    "collideAndScore (pipes (beforeScoring r s)) (beforeScoring r s) = (ps', s')"
    by fastforce
  note k = collideAndScore_keeps [OF c]
  show "gameStarted (update r s) = gameStarted s"
    using k by (cases "hitsGround s") (simp_all add: update_ground update_scoring [OF _ c] beforeScoring_fields)
  show "gamePaused (update r s) = gamePaused s"
    using k by (cases "hitsGround s") (simp_all add: update_ground update_scoring [OF _ c] beforeScoring_fields)
  show "baseWidth (update r s) = baseWidth s"
    using k by (cases "hitsGround s") (simp_all add: update_ground update_scoring [OF _ c] beforeScoring_fields)
  show "baseHeight (update r s) = baseHeight s"
    using k by (cases "hitsGround s") (simp_all add: update_ground update_scoring [OF _ c] beforeScoring_fields)
  show "frameCounter (update r s) = frameCounter s"
    using k by (cases "hitsGround s") (simp_all add: update_ground update_scoring [OF _ c] beforeScoring_fields)
  show "animationFrame (update r s) = animationFrame s"
    using k by (cases "hitsGround s") (simp_all add: update_ground update_scoring [OF _ c] beforeScoring_fields)
  show "gameOver s \<Longrightarrow> gameOver (update r s)"
    using k by (cases "hitsGround s") (simp_all add: update_ground update_scoring [OF _ c] beforeScoring_fields)
  show "set (frames (update r s)) \<subseteq> set (frames s)"
    using k by (cases "hitsGround s") (auto simp add: update_ground update_scoring [OF _ c] beforeScoring_fields)
  show "score s \<le> score (update r s)"
    using k by (cases "hitsGround s") (simp_all add: update_ground update_scoring [OF _ c] beforeScoring_fields)
qed

lemma topH_range:
  assumes "0 \<le> r" "r < 1"
  shows "40 \<le> topH r" "topH r < 260" "topH r \<in> \<int>"
proof -
  have "0 \<le> r * 220" using assms by simp
  then have lo: "0 \<le> \<lfloor>r * 220\<rfloor>" by simp
  have "r * 220 < 220" using assms by simp
  then have hi: "\<lfloor>r * 220\<rfloor> < 220" by (simp add: floor_less_iff)
  show "40 \<le> topH r" using lo by (simp add: topH_def consts_defs)
  have "real_of_int \<lfloor>r * 220\<rfloor> < 220" using hi by linarith
  then show "topH r < 260" by (simp add: topH_def consts_defs)
  show "topH r \<in> \<int>" by (simp add: topH_def consts_defs)
qed

subsection \<open>Every pipe has the standard width\<close>

lemma pipe_width_unflag: "map pipe_width (map unflag ps) = map pipe_width ps"
  by (induction ps) (simp_all add: unflag_def)

lemma widths_cullPipes:
  "list_all (\<lambda>p. pipe_width p = PIPE_WIDTH) ps \<Longrightarrow>
     list_all (\<lambda>p. pipe_width p = PIPE_WIDTH) (cullPipes ps)"
  by (cases ps) simp_all

lemma widths_advancedPipes:
  "list_all (\<lambda>p. pipe_width p = PIPE_WIDTH) (pipes s) \<Longrightarrow>
     list_all (\<lambda>p. pipe_width p = PIPE_WIDTH) (advancedPipes s)"
  unfolding advancedPipes_def
  by (rule widths_cullPipes) (simp add: list_all_iff movePipe_def)

lemma widths_update:
  assumes "list_all (\<lambda>p. pipe_width p = PIPE_WIDTH) (pipes s)"
  shows "list_all (\<lambda>p. pipe_width p = PIPE_WIDTH) (pipes (update r s))"
proof (cases "hitsGround s")
  case True
  with assms show ?thesis by (simp add: update_ground)
next
  case False
  obtain ps' s' where c:
    "collideAndScore (pipes (beforeScoring r s)) (beforeScoring r s) = (ps', s')"
    by fastforce
  have "map unflag (pipes (update r s)) = map unflag (pipes (beforeScoring r s))"
    using collideAndScore_unflag [OF c] update_scoring [OF False c] by simp
  then have "map pipe_width (map unflag (pipes (update r s))) =
             map pipe_width (map unflag (pipes (beforeScoring r s)))"
    by simp
  then have e: "map pipe_width (pipes (update r s)) = map pipe_width (pipes (beforeScoring r s))"
    by (simp only: pipe_width_unflag)
  have "list_all (\<lambda>p. pipe_width p = PIPE_WIDTH) (pipes (beforeScoring r s))"
    using widths_advancedPipes [OF assms] by (simp add: beforeScoring_pipes)
  then have "list_all (\<lambda>w. w = PIPE_WIDTH) (map pipe_width (pipes (beforeScoring r s)))"
    by (simp add: list_all_iff)
  then have "list_all (\<lambda>w. w = PIPE_WIDTH) (map pipe_width (pipes (update r s)))"
    by (simp only: e)
  then show ?thesis by (simp add: list_all_iff)
qed

lemma widths_animate:
  "list_all (\<lambda>p. pipe_width p = PIPE_WIDTH) (pipes s) \<Longrightarrow>
     list_all (\<lambda>p. pipe_width p = PIPE_WIDTH) (pipes (animate r s))"
  using widths_update [of s r] by (simp add: animate_def Let_def requestAnimationFrame_def)

lemma widths_startGame:
  "list_all (\<lambda>p. pipe_width p = PIPE_WIDTH) (pipes (startGame r1 r2 s))"
  unfolding startGame_def
  by (rule widths_animate) (simp add: resetGame_def addPipe_def)

lemma widths_togglePause:
  "list_all (\<lambda>p. pipe_width p = PIPE_WIDTH) (pipes s) \<Longrightarrow>
     list_all (\<lambda>p. pipe_width p = PIPE_WIDTH) (pipes (togglePause r s))"
  using widths_animate [of "s\<lparr>gamePaused := False\<rparr>" r]
  by (simp add: togglePause_def cancelAnimationFrame_def)

lemma widths_flap:
  "list_all (\<lambda>p. pipe_width p = PIPE_WIDTH) (pipes s) \<Longrightarrow>
     list_all (\<lambda>p. pipe_width p = PIPE_WIDTH) (pipes (flap s))"
  by (simp add: flap_def)

lemma widths_step:
  assumes "list_all (\<lambda>p. pipe_width p = PIPE_WIDTH) (pipes s)"
  shows "list_all (\<lambda>p. pipe_width p = PIPE_WIDTH) (pipes (step e s))"
proof (cases e)
  case (Frame h r)
  with assms show ?thesis
    using widths_animate [of "s\<lparr>frames := removeAll h (frames s)\<rparr>" r] by simp
next
  case (Resize iw)
  with assms show ?thesis by (simp add: resizeCanvas_def Let_def)
next
  case (KeyDown k r1 r2)
  with assms show ?thesis
    by (simp add: onKeydown_def Let_def widths_startGame widths_togglePause widths_flap)
qed (simp_all add: assms handleStartInput_def widths_startGame widths_togglePause widths_flap)

lemma widths_run:
  "list_all (\<lambda>p. pipe_width p = PIPE_WIDTH) (pipes s) \<Longrightarrow>
     list_all (\<lambda>p. pipe_width p = PIPE_WIDTH) (pipes (run es s))"
  by (induction es arbitrary: s) (simp_all add: widths_step)

subsection \<open>Ground collision\<close>

text \<open>
  C1, as stated, fails in its last part. On a world lower than 90 units the bound is
  negative, and a bird that is above it after integration is clamped to 0 by line 132:
  in the state the run \<open>lowWorldRun\<close> reaches, one tick leaves the game running with
  the bird at 0 while the bound is -6. (In the code's double arithmetic the bound can
  also be missed by a rounding error on any world, since line 126 tests the rounded sum
  \<^verbatim>\<open>bird.y + BIRD_SIZE\<close>; this model has no rounding, and the amended statement
  below does not rely on its absence.)
\<close>

theorem running_above_bound_counterexample:
  "gameState lowWorldExample = Running
   \<and> gameState (update 0 lowWorldExample) = Running
   \<and> baseHeight lowWorldExample - GROUND_HEIGHT - BIRD_SIZE = - 6
   \<and> bird_y (bird (update 0 lowWorldExample)) = 0
   \<and> \<not> bird_y (bird (update 0 lowWorldExample))
         \<le> baseHeight lowWorldExample - GROUND_HEIGHT - BIRD_SIZE"
  by (simp add: lowWorldExample_def gameState_def tick_defs consts_defs Let_def)

text \<open>
  C1, amended: a tick adds 0.55 to the bird's vertical velocity and then the velocity to
  its height. If the test of line 126 then holds (height + 36 > \<open>baseHeight\<close> - 54), the
  tick sets the height to exactly \<open>baseHeight - 54 - 36\<close>, sets the game over, cancels
  the queued frame and does nothing else: pipes, score, best score and storage are as
  before. Otherwise the height is clamped at 0 from below. Hence after a tick that
  leaves the game not over, the bird's height is 0 or fails the test of line 126:
  height + 36 > \<open>baseHeight\<close> - 54 is false of it. No bound of the form
  height \<le> \<open>baseHeight - 54 - 36\<close> is stated.
\<close>

theorem ground_collision_ends_run:
  "groundTest y h = (y + 36 > h - 54)
   \<and> hitsGround s = groundTest (bird_y (bird s) + (bird_vy (bird s) + 0.55)) (baseHeight s)
   \<and> (hitsGround s \<longrightarrow>
        update r s = s\<lparr>bird := (bird s)\<lparr>bird_vy := bird_vy (bird s) + 0.55,
                                        bird_y := baseHeight s - 54 - 36\<rparr>,
                       gameOver := True,
                       frames := removeAll (animationFrame s) (frames s)\<rparr>)
   \<and> (\<not> hitsGround s \<longrightarrow>
        bird_vy (bird (update r s)) = bird_vy (bird s) + 0.55
        \<and> bird_y (bird (update r s)) = max 0 (bird_y (bird s) + (bird_vy (bird s) + 0.55)))
   \<and> (\<not> gameOver (update r s) \<longrightarrow>
        bird_y (bird (update r s)) = 0
        \<or> \<not> groundTest (bird_y (bird (update r s))) (baseHeight s))"
proof -
  have t: "groundTest y h = (y + 36 > h - 54)"
    by (simp add: groundTest_def consts_defs)
  have h: "hitsGround s =
             groundTest (bird_y (bird s) + (bird_vy (bird s) + 0.55)) (baseHeight s)"
    by (simp add: hitsGround_def integrate_def consts_defs)
  have g: "hitsGround s \<Longrightarrow>
        update r s = s\<lparr>bird := (bird s)\<lparr>bird_vy := bird_vy (bird s) + 0.55,
                                        bird_y := baseHeight s - 54 - 36\<rparr>,
                       gameOver := True,
                       frames := removeAll (animationFrame s) (frames s)\<rparr>"
    by (simp add: update_ground consts_defs)
  have b: "\<not> hitsGround s \<Longrightarrow>
        bird_vy (bird (update r s)) = bird_vy (bird s) + 0.55
        \<and> bird_y (bird (update r s)) = max 0 (bird_y (bird s) + (bird_vy (bird s) + 0.55))"
    by (simp add: update_bird ceiling_clamp_def integrate_def consts_defs max_def)
  have n: "\<not> gameOver (update r s) \<Longrightarrow> \<not> hitsGround s"
    using g by auto
  have y: "bird_y (bird (update r s)) = 0
           \<or> \<not> groundTest (bird_y (bird (update r s))) (baseHeight s)"
    if o: "\<not> gameOver (update r s)"
  proof (cases "bird_y (bird s) + (bird_vy (bird s) + 0.55) < 0")
    case True
    with b [OF n [OF o]] show ?thesis by (simp add: max_def)
  next
    case False
    with b [OF n [OF o]]
    have "bird_y (bird (update r s)) = bird_y (bird s) + (bird_vy (bird s) + 0.55)"
      by (simp add: max_def)
    with n [OF o] h show ?thesis by simp
  qed
  show ?thesis using t h g b y by blast
qed

theorem ground_collision_ends_run_witness:
  "hitsGround groundExample
   \<and> bird_y (bird (update 0 groundExample)) = 510
   \<and> gameOver (update 0 groundExample)
   \<and> \<not> hitsGround scoringExample
   \<and> \<not> gameOver (update (1/2) scoringExample)
   \<and> bird_y (bird (update (1/2) scoringExample)) = 200.55
   \<and> \<not> groundTest (bird_y (bird (update (1/2) scoringExample))) (baseHeight scoringExample)"
proof -
  have g: "hitsGround groundExample"
    by (simp add: groundExample_def scoringExample_def hitsGround_def groundTest_def
        integrate_def consts_defs)
  have n: "\<not> hitsGround scoringExample"
    by (simp add: scoringExample_def hitsGround_def groundTest_def integrate_def consts_defs)
  have o: "\<not> gameOver (update (1/2) scoringExample)"
    by (simp add: scoringExample_tick)
  have y: "bird_y (bird (update (1/2) scoringExample)) = 200.55"
    by (simp add: scoringExample_tick)
  have "bird_y (bird (update (1/2) scoringExample)) = 0
        \<or> \<not> groundTest (bird_y (bird (update (1/2) scoringExample)))
              (baseHeight scoringExample)"
    using o ground_collision_ends_run [of _ _ scoringExample "1/2"] by blast
  with y have "\<not> groundTest (bird_y (bird (update (1/2) scoringExample)))
                  (baseHeight scoringExample)"
    by simp
  moreover have "bird_y (bird (update 0 groundExample)) = 510"
    by (simp add: groundExample_tick)
  moreover have "gameOver (update 0 groundExample)"
    by (simp add: groundExample_tick)
  ultimately show ?thesis
    using g n o y ground_collision_ends_run [of 0 0 groundExample 0] by blast
qed

subsection \<open>Scoring\<close>

text \<open>
  C3: on a tick that hits the ground no flag and no score changes. On any other tick,
  moving and culling the pipes resets no flag (the flags are a suffix of the old ones),
  a new pipe starts with the flag false, and the loop of line 148 changes the flag of
  the pipe at index \<open>i\<close> in one way only: it is true afterwards exactly if it was true
  before, or the loop got to the scoring test for that pipe (no hit at it or before it)
  and the bird's left edge is right of the pipe's right edge. So a flag goes from false
  to true on the first such tick and is never reset; and the score goes up by exactly
  the number of flags that went from false to true on this tick, so by one for each
  pipe, once, and by nothing for a culled pipe. The source adds \<^verbatim>\<open>PIPE_WIDTH\<close> where
  the claim has the pipe's width; in every run every pipe has that width, 52.
\<close>

theorem passed_flips_once:
  "(hitsGround s \<longrightarrow> pipes (update r s) = pipes s \<and> score (update r s) = score s)
   \<and> (\<not> hitsGround s \<longrightarrow>
        (let ps0 = pipes (beforeScoring r s); ps' = pipes (update r s)
         in suffix (map passed (advancedPipes s)) (map passed (pipes s))
            \<and> map passed ps0 = map passed (advancedPipes s) @
                 (if spawnDue (baseWidth s) (advancedPipes s) then [False] else [])
            \<and> length ps' = length ps0
            \<and> (\<forall>i<length ps0.
                  passed (ps' ! i) =
                    (passed (ps0 ! i) \<or>
                     (reachesScoring (beforeScoring r s) ps0 i
                      \<and> bird_x (bird s) > pipe_x (ps0 ! i) + PIPE_WIDTH)))
            \<and> score (update r s) = score s + int (flips ps0 ps')))
   \<and> list_all (\<lambda>p. pipe_width p = 52) (pipes (run es (onMount iw (initial raw))))"
proof (intro conjI impI)
  assume g: "hitsGround s"
  show "pipes (update r s) = pipes s" by (simp add: update_ground [OF g])
  show "score (update r s) = score s" by (simp add: update_ground [OF g])
next
  have "list_all (\<lambda>p. pipe_width p = PIPE_WIDTH) (pipes (onMount iw (initial raw)))"
    by (simp add: mount_defs Let_def)
  from widths_run [OF this, of es]
  show "list_all (\<lambda>p. pipe_width p = 52) (pipes (run es (onMount iw (initial raw))))"
    by (simp add: PIPE_WIDTH_def)
next
  assume g: "\<not> hitsGround s"
  obtain ps' s' where c:
    "collideAndScore (pipes (beforeScoring r s)) (beforeScoring r s) = (ps', s')"
    by fastforce
  have u: "update r s = s'\<lparr>pipes := ps'\<rparr>" by (rule update_scoring [OF g c])
  note f = collideAndScore_flags [OF c]
  have "\<forall>i<length (pipes (beforeScoring r s)).
          passed (ps' ! i) =
            (passed (pipes (beforeScoring r s) ! i) \<or>
             (reachesScoring (beforeScoring r s) (pipes (beforeScoring r s)) i
              \<and> bird_x (bird s) > pipe_x (pipes (beforeScoring r s) ! i) + PIPE_WIDTH))"
    using f by (simp add: beforeScoring_fields bird_x_tick)
  moreover have "map passed (pipes (beforeScoring r s)) = map passed (advancedPipes s) @
                 (if spawnDue (baseWidth s) (advancedPipes s) then [False] else [])"
    by (simp add: beforeScoring_pipes)
  moreover have "score s' = score s + int (flips (pipes (beforeScoring r s)) ps')"
    using f by (simp add: beforeScoring_fields)
  ultimately show "let ps0 = pipes (beforeScoring r s); ps' = pipes (update r s)
         in suffix (map passed (advancedPipes s)) (map passed (pipes s))
            \<and> map passed ps0 = map passed (advancedPipes s) @
                 (if spawnDue (baseWidth s) (advancedPipes s) then [False] else [])
            \<and> length ps' = length ps0
            \<and> (\<forall>i<length ps0.
                  passed (ps' ! i) =
                    (passed (ps0 ! i) \<or>
                     (reachesScoring (beforeScoring r s) ps0 i
                      \<and> bird_x (bird s) > pipe_x (ps0 ! i) + PIPE_WIDTH)))
            \<and> score (update r s) = score s + int (flips ps0 ps')"
    using f u passed_advancedPipes [of s] by (simp add: Let_def)
qed


theorem passed_flips_once_witness:
  "\<not> hitsGround scoringExample
   \<and> length (pipes (update (1/2) scoringExample)) =
       length (pipes (beforeScoring (1/2) scoringExample))
   \<and> reachesScoring (beforeScoring (1/2) scoringExample)
        (pipes (beforeScoring (1/2) scoringExample)) 0
   \<and> \<not> passed (pipes (beforeScoring (1/2) scoringExample) ! 0)
   \<and> passed (pipes (update (1/2) scoringExample) ! 0)
   \<and> \<not> passed (pipes (update (1/2) scoringExample) ! 1)
   \<and> score (update (1/2) scoringExample) =
       score scoringExample
       + int (flips (pipes (beforeScoring (1/2) scoringExample))
                (pipes (update (1/2) scoringExample)))
   \<and> score (update (1/2) scoringExample) = 1"
proof -
  have n: "\<not> hitsGround scoringExample"
    by (simp add: groundExample_def scoringExample_def hitsGround_def groundTest_def integrate_def consts_defs)
  have b: "pipes (beforeScoring (1/2) scoringExample) =
     [\<lparr>pipe_x = 1.8, pipe_width = 52, pipe_height = 150, pipe_gap = 114, passed = False\<rparr>,
      \<lparr>pipe_x = 94.2, pipe_width = 52, pipe_height = 150, pipe_gap = 114, passed = False\<rparr>,
      \<lparr>pipe_x = 400, pipe_width = 52, pipe_height = 150, pipe_gap = 114, passed = False\<rparr>]"
    by (simp add: scoringExample_def tick_defs consts_defs Let_def)
  have r: "reachesScoring (beforeScoring (1/2) scoringExample)
        (pipes (beforeScoring (1/2) scoringExample)) 0"
    unfolding b
    by (simp add: reachesScoring_def hitsPipe_def isColliding_def beforeScoring_fields
        scoringExample_def ceiling_clamp_def integrate_def consts_defs)
  show ?thesis
    using n r passed_flips_once [of scoringExample "1/2"]
    by (simp add: Let_def b scoringExample_tick)
qed

subsection \<open>Spawning\<close>

text \<open>
  C7: a tick that hits the ground leaves the pipes alone. On any other tick the pipes
  afterwards are, flags aside, the moved and culled pipes followed by exactly one new
  pipe if that list is empty or its last pipe's x is strictly less than
  \<open>baseWidth - 92\<close>, and by nothing otherwise. The new pipe has x = \<open>baseWidth\<close>,
  width 52, gap 114 and height \<open>floor (r * (260 - 40)) + 40\<close>; for a random number
  \<open>r\<close> with \<open>0 \<le> r < 1\<close> that height is an integer from 40 up to, but not
  including, 260.
\<close>

theorem spawn_policy:
  "(hitsGround s \<longrightarrow> pipes (update r s) = pipes s)
   \<and> (\<not> hitsGround s \<longrightarrow>
        map unflag (pipes (update r s)) =
          map unflag
            (advancedPipes s @
              (if advancedPipes s = [] \<or> pipe_x (last (advancedPipes s)) < baseWidth s - 92
               then [\<lparr>pipe_x = baseWidth s, pipe_width = 52,
                      pipe_height = of_int \<lfloor>r * (260 - 40)\<rfloor> + 40,
                      pipe_gap = 114, passed = False\<rparr>]
               else [])))
   \<and> (0 \<le> r \<and> r < 1 \<longrightarrow>
        topH r = of_int \<lfloor>r * (260 - 40)\<rfloor> + 40 \<and> 40 \<le> topH r \<and> topH r < 260 \<and> topH r \<in> \<int>)"
proof (intro conjI impI)
  assume "hitsGround s"
  then show "pipes (update r s) = pipes s" by (simp add: update_ground)
next
  assume g: "\<not> hitsGround s"
  obtain ps' s' where c:
    "collideAndScore (pipes (beforeScoring r s)) (beforeScoring r s) = (ps', s')"
    by fastforce
  have "map unflag (pipes (update r s)) = map unflag (pipes (beforeScoring r s))"
    using collideAndScore_unflag [OF c] update_scoring [OF g c] by simp
  then show "map unflag (pipes (update r s)) =
          map unflag
            (advancedPipes s @
              (if advancedPipes s = [] \<or> pipe_x (last (advancedPipes s)) < baseWidth s - 92
               then [\<lparr>pipe_x = baseWidth s, pipe_width = 52,
                      pipe_height = of_int \<lfloor>r * (260 - 40)\<rfloor> + 40,
                      pipe_gap = 114, passed = False\<rparr>]
               else []))"
    by (simp add: beforeScoring_pipes spawnDue_def topH_def consts_defs)
next
  assume "0 \<le> r \<and> r < 1"
  then show "topH r = of_int \<lfloor>r * (260 - 40)\<rfloor> + 40" "40 \<le> topH r" "topH r < 260" "topH r \<in> \<int>"
    using topH_range [of r] by (simp_all add: topH_def consts_defs)
qed


theorem spawn_policy_witness:
  "\<not> hitsGround scoringExample
   \<and> map unflag (pipes (update (1/2) scoringExample)) =
       map unflag (advancedPipes scoringExample @
         [\<lparr>pipe_x = 400, pipe_width = 52, pipe_height = 150, pipe_gap = 114,
           passed = False\<rparr>])
   \<and> topH (1/2) = 150 \<and> 40 \<le> topH (1/2) \<and> topH (1/2) < 260
   \<and> hitsGround groundExample
   \<and> pipes (update 0 groundExample) = pipes groundExample"
proof -
  have n: "\<not> hitsGround scoringExample"
    by (simp add: groundExample_def scoringExample_def hitsGround_def groundTest_def integrate_def consts_defs)
  have g: "hitsGround groundExample"
    by (simp add: groundExample_def scoringExample_def hitsGround_def groundTest_def integrate_def consts_defs)
  have a: "advancedPipes scoringExample =
     [\<lparr>pipe_x = 1.8, pipe_width = 52, pipe_height = 150, pipe_gap = 114, passed = False\<rparr>,
      \<lparr>pipe_x = 94.2, pipe_width = 52, pipe_height = 150, pipe_gap = 114, passed = False\<rparr>]"
    by (simp add: scoringExample_def advancedPipes_def movePipe_def consts_defs)
  have w: "baseWidth scoringExample = 400" by (simp add: scoringExample_def)
  have r: "(0::real) \<le> 1/2 \<and> (1/2::real) < 1" by simp
  show ?thesis
    using n g r spawn_policy [of scoringExample "1/2"]
      spawn_policy
        [of groundExample 0]
    by (simp add: a w)
qed

subsection \<open>The flags in every run\<close>

lemma flagsOK_animate:
  "flagsOK s \<Longrightarrow> gameStarted s \<Longrightarrow> flagsOK (animate r s) \<and> gameStarted (animate r s)"
  by (simp add: animate_def flagsOK_def Let_def requestAnimationFrame_def update_keeps)

lemma flagsOK_startGame: "flagsOK (startGame r1 r2 s) \<and> gameStarted (startGame r1 r2 s)"
  unfolding startGame_def
  by (rule flagsOK_animate) (simp_all add: flagsOK_def)

lemma flagsOK_togglePause: "flagsOK s \<Longrightarrow> flagsOK (togglePause r s)"
proof -
  assume f: "flagsOK s"
  show ?thesis
  proof (cases "\<not> gameStarted s \<or> gameOver s")
    case True
    with f show ?thesis by (simp add: togglePause_def)
  next
    case False
    then have st: "gameStarted s" "\<not> gameOver s" by simp_all
    show ?thesis
    proof (cases "gamePaused s")
      case True
      have "flagsOK (s\<lparr>gamePaused := False\<rparr>)" using st by (simp add: flagsOK_def)
      then have "flagsOK (animate r (s\<lparr>gamePaused := False\<rparr>))"
        using st flagsOK_animate [of "s\<lparr>gamePaused := False\<rparr>" r] by simp
      with st True show ?thesis by (simp add: togglePause_def)
    next
      case False
      with st show ?thesis
        by (simp add: togglePause_def cancelAnimationFrame_def flagsOK_def)
    qed
  qed
qed

lemma flagsOK_flap: "flagsOK s \<Longrightarrow> flagsOK (flap s)"
  by (auto simp: flap_def flagsOK_def)

lemma flagsOK_resizeCanvas: "flagsOK s \<Longrightarrow> flagsOK (resizeCanvas iw s)"
  by (simp add: resizeCanvas_def flagsOK_def Let_def)

lemma flagsOK_handleStartInput: "flagsOK s \<Longrightarrow> flagsOK (handleStartInput r1 r2 s)"
  by (simp add: handleStartInput_def flagsOK_startGame flagsOK_togglePause flagsOK_flap)

lemma flagsOK_onKeydown: "flagsOK s \<Longrightarrow> flagsOK (onKeydown k r1 r2 s)"
  by (simp add: onKeydown_def Let_def flagsOK_startGame flagsOK_togglePause flagsOK_flap)

lemma flagsOK_step: "flagsOK s \<Longrightarrow> flagsOK (step e s)"
proof (cases e)
  case (Frame h r)
  assume f: "flagsOK s"
  show ?thesis
  proof (cases "h \<in> set (frames s)")
    case True
    then have "frames s \<noteq> []" by auto
    with f have st: "gameStarted s" by (auto simp: flagsOK_def)
    have "flagsOK (s\<lparr>frames := removeAll h (frames s)\<rparr>)"
      using f st by (simp add: flagsOK_def)
    with st Frame True show ?thesis
      using flagsOK_animate [of "s\<lparr>frames := removeAll h (frames s)\<rparr>" r] by simp
  next
    case False
    with f Frame show ?thesis by simp
  qed
qed (simp_all add: flagsOK_startGame flagsOK_togglePause flagsOK_flap
      flagsOK_handleStartInput flagsOK_onKeydown flagsOK_resizeCanvas)

lemma flagsOK_run: "flagsOK s \<Longrightarrow> flagsOK (run es s)"
  by (induction es arbitrary: s) (simp_all add: flagsOK_step)

lemma flagsOK_mounted: "flagsOK (onMount iw (initial raw))"
  by (simp add: mount_defs flagsOK_def Let_def)

text \<open>
  C10: in every state that a run of events reaches from the mounted component
  (calls of \<^verbatim>\<open>startGame\<close>, \<^verbatim>\<open>togglePause\<close> and \<^verbatim>\<open>flap\<close>, ticks, pointer and key
  presses, resizes), \<^verbatim>\<open>gamePaused\<close> and \<^verbatim>\<open>gameOver\<close> are not both true, and the
  three flags are one of four combinations, one for each of NotStarted, Running, Paused
  and GameOver. A tick is a queued frame callback running \<^verbatim>\<open>animate\<close>, the only
  caller of \<^verbatim>\<open>update\<close>.
\<close>

theorem flags_realize_four_states:
  "\<not> (gamePaused (run es (onMount iw (initial raw)))
        \<and> gameOver (run es (onMount iw (initial raw))))
   \<and> (gameStarted (run es (onMount iw (initial raw))),
       gamePaused (run es (onMount iw (initial raw))),
       gameOver (run es (onMount iw (initial raw)))) =
      (case gameState (run es (onMount iw (initial raw))) of
         NotStarted \<Rightarrow> (False, False, False)
       | Running \<Rightarrow> (True, False, False)
       | Paused \<Rightarrow> (True, True, False)
       | GameOver \<Rightarrow> (True, False, True))"
  using flagsOK_run [OF flagsOK_mounted, of es iw raw]
  by (auto simp: flagsOK_def gameState_def)


theorem flags_realize_four_states_witness:
  "gameState (run [StartGame (1/2) 0, TogglePause 0] (onMount 1000 (initial None))) = Paused
   \<and> (gameStarted (run [StartGame (1/2) 0, TogglePause 0] (onMount 1000 (initial None))),
       gamePaused (run [StartGame (1/2) 0, TogglePause 0] (onMount 1000 (initial None))),
       gameOver (run [StartGame (1/2) 0, TogglePause 0] (onMount 1000 (initial None)))) =
      (True, True, False)"
proof -
  have g: "gameState (run [StartGame (1/2) 0, TogglePause 0] (onMount 1000 (initial None)))
             = Paused"
    by (simp only: pausedExample_run) (simp add: pausedExample_eq gameState_def)
  show ?thesis
    using g flags_realize_four_states [of "[StartGame (1/2) 0, TogglePause 0]" 1000 None]
    by simp
qed

subsection \<open>Routing the primary input\<close>

text \<open>
  C9: \<^verbatim>\<open>handleStartInput\<close>, which every tap and click calls, starts or restarts the
  game if it has not started, or is over and not paused; otherwise resumes it with
  \<^verbatim>\<open>togglePause\<close> if it is paused; otherwise flaps. In every state that a run reaches
  this is: start in NotStarted and GameOver, resume in Paused, flap in Running; and a
  press of Space or ArrowUp does the same as the pointer.
\<close>

theorem primary_input_routing:
  "handleStartInput r1 r2 t =
     (if \<not> gameStarted t \<or> (gameOver t \<and> \<not> gamePaused t) then startGame r1 r2 t
      else if gamePaused t then togglePause r1 t
      else flap t)
   \<and> step (Pointer r1 r2) t = handleStartInput r1 r2 t
   \<and> handleStartInput r1 r2 (run es (onMount iw (initial raw))) =
       (case gameState (run es (onMount iw (initial raw))) of
          NotStarted \<Rightarrow> startGame r1 r2 (run es (onMount iw (initial raw)))
        | GameOver \<Rightarrow> startGame r1 r2 (run es (onMount iw (initial raw)))
        | Paused \<Rightarrow> togglePause r1 (run es (onMount iw (initial raw)))
        | Running \<Rightarrow> flap (run es (onMount iw (initial raw))))
   \<and> onKeydown '' '' r1 r2 (run es (onMount iw (initial raw))) =
       handleStartInput r1 r2 (run es (onMount iw (initial raw)))
   \<and> onKeydown ''ArrowUp'' r1 r2 (run es (onMount iw (initial raw))) =
       handleStartInput r1 r2 (run es (onMount iw (initial raw)))"
  using flagsOK_run [OF flagsOK_mounted, of es iw raw]
  by (auto simp: flagsOK_def gameState_def handleStartInput_def onKeydown_def Let_def)


theorem primary_input_routing_witness:
  "gameState (run [StartGame (1/2) 0, TogglePause 0] (onMount 1000 (initial None))) = Paused
   \<and> handleStartInput 0 0 (run [StartGame (1/2) 0, TogglePause 0] (onMount 1000 (initial None)))
       = togglePause 0 (run [StartGame (1/2) 0, TogglePause 0] (onMount 1000 (initial None)))
   \<and> onKeydown '' '' 0 0 (run [StartGame (1/2) 0, TogglePause 0] (onMount 1000 (initial None)))
       = togglePause 0 (run [StartGame (1/2) 0, TogglePause 0] (onMount 1000 (initial None)))
   \<and> handleStartInput 0 0 (initial None) = startGame 0 0 (initial None)"
proof -
  have g: "gameState (run [StartGame (1/2) 0, TogglePause 0] (onMount 1000 (initial None)))
             = Paused"
    by (simp only: pausedExample_run) (simp add: pausedExample_eq gameState_def)
  have n: "\<not> gameStarted (initial None)" by (simp add: initial_def)
  show ?thesis
    using g n
      primary_input_routing
        [of 0 0 "initial None" "[StartGame (1/2) 0, TogglePause 0]" 1000 None]
    by simp
qed

subsection \<open>What the game stores, it loads again\<close>

lemma digitOf_digit: "n < 10 \<Longrightarrow> digitOf (''0123456789'' ! n) = Some n"
proof -
  assume "n < 10"
  then have "n \<in> {0, 1, 2, 3, 4, 5, 6, 7, 8, 9}" by auto
  then show ?thesis by (auto simp: digitOf_def)
qed

lemma digitsPrefix_digits:
  "list_all (\<lambda>c. \<exists>d<10. digitOf c = Some d) cs \<Longrightarrow>
     digitsPrefix 10 cs = map (\<lambda>c. the (digitOf c)) cs"
  by (induction cs) auto

lemma natToString_digits: "list_all (\<lambda>c. \<exists>d<10. digitOf c = Some d) (natToString n)"
proof (induction n rule: natToString.induct)
  case (1 n)
  show ?case
  proof (cases "n < 10")
    case True
    then show ?thesis by (subst natToString.simps) (simp add: digitOf_digit)
  next
    case False
    have "n mod 10 < 10" by simp
    then have "digitOf (''0123456789'' ! (n mod 10)) = Some (n mod 10)" by (rule digitOf_digit)
    with False 1 show ?thesis by (subst natToString.simps) simp
  qed
qed

lemma natToString_value:
  "foldl (\<lambda>a d. a * 10 + d) 0 (map (\<lambda>c. the (digitOf c)) (natToString n)) = n"
proof (induction n rule: natToString.induct)
  case (1 n)
  show ?case
  proof (cases "n < 10")
    case True
    then show ?thesis by (subst natToString.simps) (simp add: digitOf_digit)
  next
    case False
    have "n mod 10 < 10" by simp
    then have "digitOf (''0123456789'' ! (n mod 10)) = Some (n mod 10)" by (rule digitOf_digit)
    with False 1 show ?thesis by (subst natToString.simps) simp
  qed
qed

lemma natToString_nonempty: "natToString n \<noteq> []"
  by (subst natToString.simps) simp

lemma digit_char_plain:
  assumes "digitOf c = Some d" "d < 10"
  shows "\<not> isWhiteSpace c" "c \<noteq> CHR ''-''" "c \<noteq> CHR ''+''" "c \<noteq> CHR ''x''" "c \<noteq> CHR ''X''"
  using assms by (auto simp: digitOf_def isWhiteSpace_def Let_def split: if_splits)

lemma parseInt_digits:
  assumes "cs \<noteq> []" "list_all (\<lambda>c. \<exists>d<10. digitOf c = Some d) cs"
  shows "parseInt cs = Num (int (foldl (\<lambda>a d. a * 10 + d) 0 (map (\<lambda>c. the (digitOf c)) cs)))"
proof -
  obtain c cs' where cs: "cs = c # cs'" using assms(1) by (cases cs) auto
  from assms(2) cs obtain d where d: "digitOf c = Some d" "d < 10" by auto
  note pl = digit_char_plain [OF d]
  have w: "dropWhile isWhiteSpace cs = cs" using cs pl by simp
  have nohex: "take 2 cs \<noteq> ''0x''" "take 2 cs \<noteq> ''0X''"
  proof -
    show "take 2 cs \<noteq> ''0x''"
    proof (cases cs')
      case Nil
      with cs show ?thesis by simp
    next
      case (Cons c2 cs2)
      with assms(2) cs obtain d2 where "digitOf c2 = Some d2" "d2 < 10" by auto
      from digit_char_plain [OF this] Cons cs show ?thesis by (simp add: numeral_2_eq_2)
    qed
    show "take 2 cs \<noteq> ''0X''"
    proof (cases cs')
      case Nil
      with cs show ?thesis by simp
    next
      case (Cons c2 cs2)
      with assms(2) cs obtain d2 where "digitOf c2 = Some d2" "d2 < 10" by auto
      from digit_char_plain [OF this] Cons cs show ?thesis by (simp add: numeral_2_eq_2)
    qed
  qed
  have z: "digitsPrefix 10 cs = map (\<lambda>c. the (digitOf c)) cs"
    by (rule digitsPrefix_digits [OF assms(2)])
  have hd: "hd cs \<noteq> CHR ''-''" "hd cs \<noteq> CHR ''+''" using cs pl by simp_all
  show ?thesis
    unfolding parseInt_def Let_def w
    using nohex hd z assms(1) by simp
qed

lemma loadBestScore_numToString: "0 \<le> n \<Longrightarrow> loadBestScore (Some (numToString n)) = Num n"
  using parseInt_digits [OF natToString_nonempty natToString_digits, of "nat n"]
  by (simp add: loadBestScore_def numToString_def natToString_nonempty natToString_value)

subsection \<open>The best score\<close>

lemma best_le_refl: "best_le a a"
  by (simp add: best_le_def split: jsnum.splits)

lemma best_le_trans: "best_le a b \<Longrightarrow> best_le b c \<Longrightarrow> best_le a c"
  by (auto simp: best_le_def split: jsnum.splits)

lemma scorePoint_best:
  "bestScore s = Num b \<Longrightarrow>
     bestScore (scorePoint s) = Num (max b (score s + 1))
     \<and> storage (scorePoint s) =
         (if score s + 1 > b then Some (numToString (score s + 1)) else storage s)"
  "bestScore s = NaN \<Longrightarrow> bestScore (scorePoint s) = NaN \<and> storage (scorePoint s) = storage s"
  by (simp_all add: scorePoint_def js_gt_def Let_def max_def)

lemma collideAndScore_best:
  "collideAndScore ps s = (ps', s') \<Longrightarrow> bestScore s = Num b \<Longrightarrow>
     bestScore s' = Num (if score s' > score s then max b (score s') else b)
     \<and> storage s' =
         (if score s' > score s \<and> score s' > b then Some (numToString (score s'))
          else storage s)"
proof (induction ps arbitrary: s ps' s' b)
  case Nil
  then show ?case by simp
next
  case (Cons p ps)
  show ?case
  proof (cases "hitsPipe s p")
    case True
    with Cons.prems show ?thesis by (auto simp: endGame_keeps)
  next
    case False
    show ?thesis
    proof (cases "\<not> passed p \<and> bird_x (bird s) > pipe_x p + PIPE_WIDTH")
      case True
      obtain qs t where r: "collideAndScore ps (scorePoint s) = (qs, t)" by fastforce
      with Cons.prems False True have e: "s' = t" by simp
      have sp: "bestScore (scorePoint s) = Num (max b (score s + 1))"
        "storage (scorePoint s) =
           (if score s + 1 > b then Some (numToString (score s + 1)) else storage s)"
        using scorePoint_best(1) [OF Cons.prems(2)] by simp_all
      have mono: "score s + 1 \<le> score t"
        using collideAndScore_keeps [OF r] by (simp add: scorePoint_keeps)
      from Cons.IH [OF r sp(1)] have ih:
        "bestScore t = Num (if score t > score s + 1 then max (max b (score s + 1)) (score t)
                            else max b (score s + 1))"
        "storage t = (if score t > score s + 1 \<and> score t > max b (score s + 1)
                      then Some (numToString (score t)) else storage (scorePoint s))"
        by (simp_all add: scorePoint_keeps)
      show ?thesis
      proof (cases "score t = score s + 1")
        case True
        with ih sp e show ?thesis by (simp add: max_def)
      next
        case False
        with mono have "score t > score s + 1" by simp
        with ih sp e show ?thesis by (auto simp: max_def)
      qed
    next
      case nopass: False
      obtain qs t where r: "collideAndScore ps s = (qs, t)" by fastforce
      with Cons.prems False nopass have "s' = t" by auto
      with Cons.IH [OF r Cons.prems(2)] show ?thesis by simp
    qed
  qed
qed

lemma collideAndScore_best_NaN:
  "collideAndScore ps s = (ps', s') \<Longrightarrow> bestScore s = NaN \<Longrightarrow>
     bestScore s' = NaN \<and> storage s' = storage s"
proof (induction ps arbitrary: s ps' s')
  case Nil
  then show ?case by simp
next
  case (Cons p ps)
  show ?case
  proof (cases "hitsPipe s p")
    case True
    with Cons.prems show ?thesis by (auto simp: endGame_keeps)
  next
    case False
    show ?thesis
    proof (cases "\<not> passed p \<and> bird_x (bird s) > pipe_x p + PIPE_WIDTH")
      case True
      obtain qs t where r: "collideAndScore ps (scorePoint s) = (qs, t)" by fastforce
      with Cons.prems False True have e: "s' = t" by simp
      from Cons.IH [OF r] scorePoint_best(2) [OF Cons.prems(2)] e show ?thesis by simp
    next
      case nopass: False
      obtain qs t where r: "collideAndScore ps s = (qs, t)" by fastforce
      with Cons.prems False nopass have "s' = t" by auto
      with Cons.IH [OF r Cons.prems(2)] show ?thesis by simp
    qed
  qed
qed

lemma update_best:
  "bestScore s = Num b \<Longrightarrow>
     bestScore (update r s) =
       Num (if score (update r s) > score s then max b (score (update r s)) else b)
     \<and> storage (update r s) =
         (if score (update r s) > score s \<and> score (update r s) > b
          then Some (numToString (score (update r s))) else storage s)"
proof (cases "hitsGround s")
  case True
  assume "bestScore s = Num b"
  with True show ?thesis by (simp add: update_ground)
next
  case False
  assume b: "bestScore s = Num b"
  obtain ps' s' where c:
    "collideAndScore (pipes (beforeScoring r s)) (beforeScoring r s) = (ps', s')"
    by fastforce
  have "bestScore (beforeScoring r s) = Num b" using b by (simp add: beforeScoring_fields)
  from collideAndScore_best [OF c this] update_scoring [OF False c]
  show ?thesis by (simp add: beforeScoring_fields)
qed

lemma update_best_NaN:
  "bestScore s = NaN \<Longrightarrow> bestScore (update r s) = NaN \<and> storage (update r s) = storage s"
proof (cases "hitsGround s")
  case True
  assume "bestScore s = NaN"
  with True show ?thesis by (simp add: update_ground)
next
  case False
  assume b: "bestScore s = NaN"
  obtain ps' s' where c:
    "collideAndScore (pipes (beforeScoring r s)) (beforeScoring r s) = (ps', s')"
    by fastforce
  have "bestScore (beforeScoring r s) = NaN" using b by (simp add: beforeScoring_fields)
  from collideAndScore_best_NaN [OF c this] update_scoring [OF False c]
  show ?thesis by (simp add: beforeScoring_fields)
qed

lemma best_le_update: "best_le (bestScore s) (bestScore (update r s))"
proof (cases "bestScore s")
  case (Num b)
  from update_best [OF Num, of r] Num show ?thesis by (simp add: best_le_def max_def)
next
  case NaN
  from update_best_NaN [OF NaN, of r] NaN show ?thesis by (simp add: best_le_def)
qed

lemma best_le_animate: "best_le (bestScore s) (bestScore (animate r s))"
  using best_le_update [of s r]
  by (simp add: animate_def Let_def requestAnimationFrame_def best_le_refl)

lemma best_le_startGame: "best_le (bestScore s) (bestScore (startGame r1 r2 s))"
  using best_le_animate
    [of "(resetGame r1 s)\<lparr>gameStarted := True, gameOver := False, gamePaused := False\<rparr>" r2]
  by (simp add: startGame_def resetGame_def addPipe_def)

lemma best_le_togglePause: "best_le (bestScore s) (bestScore (togglePause r s))"
  using best_le_animate [of "s\<lparr>gamePaused := False\<rparr>" r]
  by (simp add: togglePause_def cancelAnimationFrame_def best_le_refl)

lemma best_le_flap: "best_le (bestScore s) (bestScore (flap s))"
  by (simp add: flap_def best_le_refl)

lemma best_le_handleStartInput: "best_le (bestScore s) (bestScore (handleStartInput r1 r2 s))"
  by (simp add: handleStartInput_def best_le_startGame best_le_togglePause best_le_flap)

lemma best_le_onKeydown: "best_le (bestScore s) (bestScore (onKeydown k r1 r2 s))"
proof -
  define s1 where "s1 = (if k = '' '' \<or> k = ''ArrowUp''
                then (if \<not> gameStarted s \<or> gameOver s then startGame r1 r2 s
                      else if gamePaused s then togglePause r1 s
                      else flap s)
                else s)"
  define s2 where "s2 = (if (k = ''p'' \<or> k = ''P'') \<and> gameStarted s1 \<and> \<not> gameOver s1
                then togglePause r1 s1 else s1)"
  have a: "best_le (bestScore s) (bestScore s1)"
    by (simp add: s1_def best_le_startGame best_le_togglePause best_le_flap best_le_refl)
  have b: "best_le (bestScore s1) (bestScore s2)"
    by (simp add: s2_def best_le_togglePause best_le_refl)
  have c: "best_le (bestScore s2)
             (bestScore (if (k = ''r'' \<or> k = ''R'') \<and> gameOver s2 then startGame r1 r2 s2 else s2))"
    by (simp add: best_le_startGame best_le_refl)
  have e: "onKeydown k r1 r2 s =
          (if (k = ''r'' \<or> k = ''R'') \<and> gameOver s2 then startGame r1 r2 s2 else s2)"
    unfolding onKeydown_def s1_def s2_def Let_def by (rule refl)
  from a b have "best_le (bestScore s) (bestScore s2)" by (rule best_le_trans)
  from this c show ?thesis unfolding e by (rule best_le_trans)
qed

lemma best_le_step: "best_le (bestScore s) (bestScore (step e s))"
proof (cases e)
  case (Frame h r)
  then show ?thesis
    using best_le_animate [of "s\<lparr>frames := removeAll h (frames s)\<rparr>" r]
    by (simp add: best_le_refl)
next
  case (Resize iw)
  then show ?thesis by (simp add: resizeCanvas_def Let_def best_le_refl)
qed (simp_all add: best_le_startGame best_le_togglePause best_le_flap
      best_le_handleStartInput best_le_onKeydown)

lemma best_le_run: "best_le (bestScore s) (bestScore (run es s))"
proof (induction es arbitrary: s)
  case Nil
  show ?case by (simp add: best_le_refl)
next
  case (Cons e es)
  from best_le_step [of s e] Cons [of "step e s"] show ?case
    by (simp add: best_le_trans)
qed

text \<open>
  C4: whatever the state and whatever events follow (ticks, starts and restarts,
  pauses, flaps, pointer and key presses, resizes), the best score at the end is not
  below the best score at the beginning. \<^verbatim>\<open>resetGame\<close> sets the score to 0 and leaves
  the best score alone. When a point is scored and the new score is greater than the
  best score, the best score becomes that score and its decimal string is stored; so
  after a tick on which the score has gone up, the best score is the greater of the old
  best score and the new score, and the stored string is that of the new score if it is
  greater than the old best score. A string stored this way loads as the same number
  when the component is mounted again.
\<close>

theorem bestScore_never_decreases:
  "best_le (bestScore s) (bestScore (run es s))
   \<and> bestScore (resetGame r s) = bestScore s \<and> score (resetGame r s) = 0
   \<and> (js_gt (score s + 1) (bestScore s) \<longrightarrow>
        bestScore (scorePoint s) = Num (score s + 1)
        \<and> storage (scorePoint s) = Some (numToString (score s + 1)))
   \<and> (bestScore s = Num b \<longrightarrow>
        bestScore (update r s) =
          Num (if score (update r s) > score s then max b (score (update r s)) else b)
        \<and> storage (update r s) =
            (if score (update r s) > score s \<and> score (update r s) > b
             then Some (numToString (score (update r s))) else storage s))
   \<and> (0 \<le> n \<longrightarrow> loadBestScore (Some (numToString n)) = Num n)"
proof (intro conjI impI)
  assume "0 \<le> n"
  then show "loadBestScore (Some (numToString n)) = Num n"
    by (rule loadBestScore_numToString)
next
  show "best_le (bestScore s) (bestScore (run es s))" by (rule best_le_run)
  show "bestScore (resetGame r s) = bestScore s" by (simp add: resetGame_def addPipe_def)
  show "score (resetGame r s) = 0" by (simp add: resetGame_def addPipe_def)
next
  assume "js_gt (score s + 1) (bestScore s)"
  then show "bestScore (scorePoint s) = Num (score s + 1)"
    "storage (scorePoint s) = Some (numToString (score s + 1))"
    by (simp_all add: scorePoint_def Let_def)
next
  assume b: "bestScore s = Num b"
  from update_best [OF b, of r]
  show "bestScore (update r s) =
          Num (if score (update r s) > score s then max b (score (update r s)) else b)"
    "storage (update r s) =
            (if score (update r s) > score s \<and> score (update r s) > b
             then Some (numToString (score (update r s))) else storage s)"
    by simp_all
qed


theorem bestScore_never_decreases_witness:
  "bestScore scoringExample = Num 0
   \<and> js_gt (score scoringExample + 1) (bestScore scoringExample)
   \<and> bestScore (scorePoint scoringExample) = Num (score scoringExample + 1)
   \<and> bestScore (update (1/2) scoringExample) = Num 1
   \<and> storage (update (1/2) scoringExample) = Some ''1''
   \<and> best_le (bestScore scoringExample)
        (bestScore (run [Frame 181 (1/2), Flap] scoringExample))
   \<and> loadBestScore (Some (numToString 1)) = Num 1"
proof -
  have z: "(0::int) \<le> 1" by simp
  have b: "bestScore scoringExample = Num 0" by (simp add: scoringExample_def)
  have j: "js_gt (score scoringExample + 1) (bestScore scoringExample)"
    by (simp add: scoringExample_def js_gt_def)
  have u: "bestScore (update (1/2) scoringExample) = Num 1"
    "storage (update (1/2) scoringExample) = Some ''1''"
    by (simp_all add: scoringExample_tick)
  show ?thesis
    using b j u z
      bestScore_never_decreases [of scoringExample "[Frame 181 (1/2), Flap]" "1/2" 0 1]
    by blast
qed

subsection \<open>Pausing\<close>

lemma paused_frames_frozen:
  "gamePaused s \<Longrightarrow> list_all isFrame es \<Longrightarrow> run es s = s\<lparr>frames := frames (run es s)\<rparr>"
proof (induction es arbitrary: s)
  case Nil
  show ?case by simp
next
  case (Cons e es)
  from Cons.prems obtain h r where e: "e = Frame h r"
    by (cases e) (simp_all add: isFrame_def)
  have st: "step e s = s\<lparr>frames := removeAll h (frames s)\<rparr>"
    using Cons.prems(1) e by (simp add: animate_def)
  have "run es (step e s) = (step e s)\<lparr>frames := frames (run es (step e s))\<rparr>"
    using Cons.prems by (intro Cons.IH) (simp_all add: st)
  then show ?case by (simp add: st)
qed

lemma gameState_Paused_iff:
  "gameState s = Paused \<longleftrightarrow> gameStarted s \<and> \<not> gameOver s \<and> gamePaused s"
  by (auto simp: gameState_def)

lemma paused_idle_step:
  assumes "gameState s = Paused" "idle e"
  shows "\<exists>w h f. step e s = s\<lparr>baseWidth := w, baseHeight := h, frames := f\<rparr>"
proof -
  from assms(1) have f: "gameStarted s" "\<not> gameOver s" "gamePaused s"
    by (simp_all add: gameState_def split: if_splits)
  have i: "s = s\<lparr>baseWidth := baseWidth s, baseHeight := baseHeight s, frames := frames s\<rparr>"
    by simp
  show ?thesis
  proof (cases e)
    case (Frame h r)
    have "step e s = s\<lparr>baseWidth := baseWidth s, baseHeight := baseHeight s,
                        frames := removeAll h (frames s)\<rparr>"
      using f Frame by (simp add: animate_def)
    then show ?thesis by blast
  next
    case (Resize iw)
    have "step e s = s\<lparr>baseWidth := baseWidth (resizeCanvas iw s),
                        baseHeight := baseHeight (resizeCanvas iw s), frames := frames s\<rparr>"
      using Resize by (simp add: resizeCanvas_def Let_def)
    then show ?thesis by blast
  next
    case (KeyDown k r1 r2)
    with assms(2) f have "step e s = s" by (simp add: onKeydown_def Let_def)
    with i show ?thesis by metis
  qed (use assms(2) in simp_all)
qed

lemma paused_idle_frozen:
  "gameState s = Paused \<Longrightarrow> list_all idle es \<Longrightarrow>
     run es s = s\<lparr>baseWidth := baseWidth (run es s), baseHeight := baseHeight (run es s),
                  frames := frames (run es s)\<rparr>"
proof (induction es arbitrary: s)
  case Nil
  show ?case by simp
next
  case (Cons e es)
  from Cons.prems have pe: "idle e" and pes: "list_all idle es" by simp_all
  from paused_idle_step [OF Cons.prems(1) pe] obtain w h f
    where st: "step e s = s\<lparr>baseWidth := w, baseHeight := h, frames := f\<rparr>" by blast
  have "gameState (step e s) = Paused"
    using Cons.prems(1) by (simp add: st gameState_Paused_iff)
  from Cons.IH [OF this pes]
  have "run es (step e s) =
          (step e s)\<lparr>baseWidth := baseWidth (run es (step e s)),
                     baseHeight := baseHeight (run es (step e s)),
                     frames := frames (run es (step e s))\<rparr>" .
  then show ?case by (simp add: st)
qed

lemma paused_input_resumes:
  assumes "gameState s = Paused"
  shows "step (Pointer r1 r2) s = togglePause r1 s"
    and "k \<in> set ['' '', ''ArrowUp'', ''p'', ''P''] \<Longrightarrow>
           step (KeyDown k r1 r2) s = togglePause r1 s"
proof -
  from assms have f: "gameStarted s" "\<not> gameOver s" "gamePaused s"
    by (simp_all add: gameState_def split: if_splits)
  show "step (Pointer r1 r2) s = togglePause r1 s"
    using f by (simp add: handleStartInput_def)
  show "step (KeyDown k r1 r2) s = togglePause r1 s"
    if "k \<in> set ['' '', ''ArrowUp'', ''p'', ''P'']"
    using that f by (auto simp: onKeydown_def Let_def)
qed

text \<open>
  C8, as stated, fails in its last part: the call of \<^verbatim>\<open>togglePause\<close> that resumes
  the game runs a tick before it returns. In the paused example it moves the bird from
  300.55 to 301.65 and the pipe from 397.8 to 395.6.
\<close>

theorem resume_runs_tick_counterexample:
  "gameState pausedExample = Paused
   \<and> bird_y (bird pausedExample) = 300.55
   \<and> bird_y (bird (togglePause 0 pausedExample)) = 301.65
   \<and> pipe_x (hd (pipes pausedExample)) = 397.8
   \<and> pipe_x (hd (pipes (togglePause 0 pausedExample))) = 395.6
   \<and> bird (togglePause 0 pausedExample) \<noteq> bird pausedExample"
  by (simp add: pausedExample_eq gameState_def tick_defs consts_defs Let_def)

text \<open>
  C8, amended: \<^verbatim>\<open>togglePause\<close> while Running sets the pause flag and removes the
  frame with the stored handle from the queue, and changes nothing else; the state is
  then Paused, and the queue is empty if it held no other frame. While the pause flag
  is set, frame callbacks that run change nothing but the queue. In a Paused game,
  through any sequence of frame callbacks, resizes and presses of keys other than
  Space, ArrowUp, p and P, everything but the world's size and the frame queue stays as
  it is: the bird with its height and velocity, the pipes, the score, the best score
  and the flags. A pointer press and a press of Space, ArrowUp, p or P is a call of
  \<^verbatim>\<open>togglePause\<close>. (What is left are direct calls of \<^verbatim>\<open>flap\<close> and
  \<^verbatim>\<open>startGame\<close>, which no input makes in a Paused game; they are not covered, and
  \<^verbatim>\<open>flap\<close> does set the velocity.) \<^verbatim>\<open>togglePause\<close> while Paused clears the flag
  and at once runs exactly one tick on the state as it was frozen, then queues the next
  frame unless that tick ended the game.
\<close>

theorem pause_freezes_world:
  "(gameState s = Running \<longrightarrow>
      togglePause r s = s\<lparr>gamePaused := True,
                           frames := removeAll (animationFrame s) (frames s)\<rparr>
      \<and> gameState (togglePause r s) = Paused
      \<and> (set (frames s) \<subseteq> {animationFrame s} \<longrightarrow> frames (togglePause r s) = []))
   \<and> (gamePaused s \<and> list_all isFrame es \<longrightarrow> run es s = s\<lparr>frames := frames (run es s)\<rparr>)
   \<and> (gameState s = Paused \<and> list_all idle es \<longrightarrow>
        run es s = s\<lparr>baseWidth := baseWidth (run es s), baseHeight := baseHeight (run es s),
                     frames := frames (run es s)\<rparr>
        \<and> gameState (run es s) = Paused)
   \<and> (gameState s = Paused \<longrightarrow>
        step (Pointer r1 r2) s = togglePause r1 s
        \<and> (k \<in> set ['' '', ''ArrowUp'', ''p'', ''P''] \<longrightarrow>
             step (KeyDown k r1 r2) s = togglePause r1 s))
   \<and> (gameState s = Paused \<longrightarrow>
        togglePause r s =
          (let s1 = update r (s\<lparr>gamePaused := False\<rparr>)
           in if gameOver s1 then s1 else requestAnimationFrame s1))"
proof -
  have running: "togglePause r s = s\<lparr>gamePaused := True,
                           frames := removeAll (animationFrame s) (frames s)\<rparr>
      \<and> gameState (togglePause r s) = Paused
      \<and> (set (frames s) \<subseteq> {animationFrame s} \<longrightarrow> frames (togglePause r s) = [])"
    if "gameState s = Running"
  proof -
    from that have f: "gameStarted s" "\<not> gameOver s" "\<not> gamePaused s"
      by (simp_all add: gameState_def split: if_splits)
    then have t: "togglePause r s = s\<lparr>gamePaused := True,
                           frames := removeAll (animationFrame s) (frames s)\<rparr>"
      by (simp add: togglePause_def cancelAnimationFrame_def)
    have p: "gameState (togglePause r s) = Paused"
      using f by (simp add: t gameState_def)
    have "frames (togglePause r s) = []" if "set (frames s) \<subseteq> {animationFrame s}"
    proof -
      from that have "removeAll (animationFrame s) (frames s) = []"
        by (induction "frames s") (auto simp: removeAll_filter_not_eq filter_empty_conv)
      then show ?thesis by (simp add: t)
    qed
    with t p show ?thesis by blast
  qed
  have frames_only: "run es s = s\<lparr>frames := frames (run es s)\<rparr>"
    if "gamePaused s \<and> list_all isFrame es"
    using that paused_frames_frozen by blast
  have frozen: "run es s = s\<lparr>baseWidth := baseWidth (run es s),
                     baseHeight := baseHeight (run es s), frames := frames (run es s)\<rparr>
        \<and> gameState (run es s) = Paused"
    if "gameState s = Paused \<and> list_all idle es"
  proof -
    from that have e: "run es s = s\<lparr>baseWidth := baseWidth (run es s),
                     baseHeight := baseHeight (run es s), frames := frames (run es s)\<rparr>"
      using paused_idle_frozen by blast
    have "gameState (s\<lparr>baseWidth := baseWidth (run es s),
                     baseHeight := baseHeight (run es s), frames := frames (run es s)\<rparr>)
            = Paused"
      using that by (simp add: gameState_Paused_iff)
    with e show ?thesis by simp
  qed
  have inputs: "step (Pointer r1 r2) s = togglePause r1 s
        \<and> (k \<in> set ['' '', ''ArrowUp'', ''p'', ''P''] \<longrightarrow>
             step (KeyDown k r1 r2) s = togglePause r1 s)"
    if "gameState s = Paused"
    using paused_input_resumes [OF that] by blast
  have resume: "togglePause r s =
          (let s1 = update r (s\<lparr>gamePaused := False\<rparr>)
           in if gameOver s1 then s1 else requestAnimationFrame s1)"
    if "gameState s = Paused"
  proof -
    from that have f: "gameStarted s" "\<not> gameOver s" "gamePaused s"
      by (simp_all add: gameState_def split: if_splits)
    then show ?thesis by (simp add: togglePause_def animate_def Let_def)
  qed
  show ?thesis
    using running frames_only frozen inputs resume by blast
qed

theorem pause_freezes_world_witness:
  "gameState scoringExample = Running
   \<and> set (frames scoringExample) \<subseteq> {animationFrame scoringExample}
   \<and> togglePause 0 scoringExample =
       scoringExample\<lparr>gamePaused := True,
         frames := removeAll (animationFrame scoringExample) (frames scoringExample)\<rparr>
   \<and> frames (togglePause 0 scoringExample) = []
   \<and> gameState pausedExample = Paused \<and> gamePaused pausedExample
   \<and> list_all isFrame [Frame 1 0, Frame 2 0]
   \<and> run [Frame 1 0, Frame 2 0] pausedExample =
       pausedExample\<lparr>frames := frames (run [Frame 1 0, Frame 2 0] pausedExample)\<rparr>
   \<and> list_all idle [Frame 1 0, Resize 300, KeyDown ''r'' 0 0, KeyDown ''a'' 0 0]
   \<and> run [Frame 1 0, Resize 300, KeyDown ''r'' 0 0, KeyDown ''a'' 0 0] pausedExample =
       pausedExample\<lparr>baseWidth := 280, baseHeight := 420\<rparr>
   \<and> '' '' \<in> set ['' '', ''ArrowUp'', ''p'', ''P'']
   \<and> step (KeyDown '' '' 0 0) pausedExample = togglePause 0 pausedExample
   \<and> step (Pointer 0 0) pausedExample = togglePause 0 pausedExample
   \<and> togglePause 0 pausedExample =
       (let s1 = update 0 (pausedExample\<lparr>gamePaused := False\<rparr>)
        in if gameOver s1 then s1 else requestAnimationFrame s1)"
proof -
  have r: "gameState scoringExample = Running"
    by (simp add: scoringExample_def gameState_def)
  have f: "set (frames scoringExample) \<subseteq> {animationFrame scoringExample}"
    by (simp add: scoringExample_def)
  have p: "gameState pausedExample = Paused" "gamePaused pausedExample"
    by (simp_all add: pausedExample_eq gameState_def)
  have l: "list_all isFrame [Frame 1 0, Frame 2 0]"
    by (simp add: isFrame_def)
  have q: "list_all idle [Frame 1 0, Resize 300, KeyDown ''r'' 0 0, KeyDown ''a'' 0 0]"
    by simp
  have k: "'' '' \<in> set ['' '', ''ArrowUp'', ''p'', ''P'']"
    by simp
  have w: "baseWidth (run [Frame 1 0, Resize 300, KeyDown ''r'' 0 0, KeyDown ''a'' 0 0]
                        pausedExample) = 280"
    "baseHeight (run [Frame 1 0, Resize 300, KeyDown ''r'' 0 0, KeyDown ''a'' 0 0]
                        pausedExample) = 420"
    "frames (run [Frame 1 0, Resize 300, KeyDown ''r'' 0 0, KeyDown ''a'' 0 0]
                        pausedExample) = frames pausedExample"
    by (simp_all add: pausedExample_eq animate_def resizeCanvas_def onKeydown_def Let_def)
  have "run [Frame 1 0, Resize 300, KeyDown ''r'' 0 0, KeyDown ''a'' 0 0] pausedExample =
       pausedExample\<lparr>baseWidth := 280, baseHeight := 420\<rparr>"
    using p q w
      pause_freezes_world
        [of pausedExample 0 "[Frame 1 0, Resize 300, KeyDown ''r'' 0 0, KeyDown ''a'' 0 0]"
          0 0 "'' ''"]
    by simp
  then show ?thesis
    using r f p l q k
      pause_freezes_world [of scoringExample 0 "[Frame 1 0, Frame 2 0]" 0 0 "'' ''"]
      pause_freezes_world [of pausedExample 0 "[Frame 1 0, Frame 2 0]" 0 0 "'' ''"]
    by blast
qed

end
